theory Spec2Isabelle
  imports Main "HOL-Library.AList" "HOL-Library.Word"
begin

section \<open>Errors\<close>

text \<open>
  Go error values that the three packages produce or inspect. \<open>New s\<close> is
  \<^verbatim>\<open>errors.New(s)\<close>; \<open>Wrapped m e\<close> is any error with message \<open>m\<close> whose
  \<^verbatim>\<open>Unwrap\<close> gives \<open>e\<close>. \<open>EOF\<close> is \<^verbatim>\<open>io.EOF\<close>, \<open>ErrNilDocument\<close> and
  \<open>ErrNoDocuments\<close> are the driver's sentinels, \<open>ErrNotFound\<close>, \<open>ErrInvalidParams\<close>
  and \<open>ErrInternalBy\<close> come from package rerror, \<open>ErrTransaction\<close> from usecasex and
  \<open>ErrDuplicatedUser\<close> from accountrepo.
\<close>

datatype error =
    EOF
  | ErrNilDocument
  | ErrNoDocuments
  | ErrNotFound
  | ErrInvalidParams
  | ErrDuplicatedUser
  | ErrTransaction
  | ErrInternalBy error
  | New string
  | Wrapped string error

text \<open>
  \<^verbatim>\<open>errors.Is(err, target)\<close>: \<open>err\<close> or an error on its unwrap chain is the target.
  Modelled from the spec: package rerror is outside src/; the spec's Internal error is
  "wrapped with the original cause retained", so \<open>ErrInternalBy e\<close> unwraps to \<open>e\<close>.
\<close>

fun errors_Is :: "error \<Rightarrow> error \<Rightarrow> bool" where
  "errors_Is (Wrapped m e) t = (Wrapped m e = t \<or> errors_Is e t)"
| "errors_Is (ErrInternalBy e) t = (ErrInternalBy e = t \<or> errors_Is e t)"
| "errors_Is e t = (e = t)"

text \<open>
  \<^verbatim>\<open>wrapError\<close> (part_000, lines 211-216). \<^verbatim>\<open>IsTransactionError\<close> is not under
  src/ and is taken as the parameter \<open>isTx\<close>.
\<close>

definition wrapError :: "(error \<Rightarrow> bool) \<Rightarrow> error \<Rightarrow> error" where
  "wrapError isTx err = (if isTx err then ErrTransaction else ErrInternalBy err)"

text \<open>The guard \<^verbatim>\<open>err != nil && !errors.Is(err, io.EOF)\<close> of Find and FindOne.\<close>

fun not_nil_not_EOF :: "error option \<Rightarrow> bool" where
  "not_nil_not_EOF None = False"
| "not_nil_not_EOF (Some e) = (\<not> errors_Is e EOF)"

section \<open>Collection.Find and Collection.FindOne\<close>

text \<open>
  The driver's cursor is external. It is modelled as the finite script of its answers to
  successive \<^verbatim>\<open>cursor.Next\<close> calls: what \<^verbatim>\<open>Next\<close> returned, what \<^verbatim>\<open>cursor.Err()\<close>
  gives after it, and \<^verbatim>\<open>cursor.Current\<close>. Once the script is used up, \<^verbatim>\<open>Next\<close>
  returns false with no error.

  A Consumer is a state machine: \<open>consume s d\<close> is \<^verbatim>\<open>consumer.Consume(d)\<close> in state
  \<open>s\<close>, giving the returned error (\<open>None\<close> for nil) and the next state; the document
  \<open>None\<close> is the nil document of the terminal call.
\<close>

record 'd cursor_step =
  next_ok :: bool
  step_err :: "error option"
  current :: 'd

type_synonym ('s, 'd) consumer = "'s \<Rightarrow> 'd option \<Rightarrow> error option \<times> 's"

text \<open>
  The result of a run: the error returned (\<open>None\<close> for nil), the Consume calls made, in
  order, each with what it returned, the consumer's final state, and whether the
  deferred \<^verbatim>\<open>cursor.Close\<close> ran.
\<close>

record ('s, 'd) outcome =
  result :: "error option"
  calls :: "('d option \<times> error option) list"
  final :: 's
  closed :: bool

text \<open>The branch \<^verbatim>\<open>if !c { ... break }\<close> followed by \<^verbatim>\<open>return nil\<close> (lines 52-57, 63).\<close>

definition terminal_call ::
  "('s, 'd) consumer \<Rightarrow> 's \<Rightarrow> error option \<times> ('d option \<times> error option) list \<times> 's" where
  "terminal_call consume s =
     (case consume s None of
        (r, s') \<Rightarrow> (if not_nil_not_EOF r then r else None, [(None, r)], s'))"

text \<open>The \<^verbatim>\<open>for\<close> loop of Find (lines 46-62).\<close>

fun find_loop ::
  "(error \<Rightarrow> bool) \<Rightarrow> ('s, 'd) consumer \<Rightarrow> 's \<Rightarrow> 'd cursor_step list
     \<Rightarrow> error option \<times> ('d option \<times> error option) list \<times> 's" where
  "find_loop isTx consume s [] = terminal_call consume s"
| "find_loop isTx consume s (st # rest) =
     (if not_nil_not_EOF (step_err st) then
        (map_option (wrapError isTx) (step_err st), [], s)
      else if \<not> next_ok st then terminal_call consume s
      else
        (case consume s (Some (current st)) of
           (Some e, s') \<Rightarrow> (Some e, [(Some (current st), Some e)], s')
         | (None, s') \<Rightarrow>
             (case find_loop isTx consume s' rest of
                (res, cs, s'') \<Rightarrow> (res, (Some (current st), None) # cs, s''))))"

text \<open>
  Find (lines 34-64). \<open>opened\<close> is what \<^verbatim>\<open>c.client.Find\<close> returned: \<open>Inl err\<close> for a
  non-nil error, \<open>Inr script\<close> for a cursor.
\<close>

definition Find ::
  "(error \<Rightarrow> bool) \<Rightarrow> error + 'd cursor_step list \<Rightarrow> ('s, 'd) consumer \<Rightarrow> 's
     \<Rightarrow> ('s, 'd) outcome" where
  "Find isTx opened consume s =
     (case opened of
        Inl err \<Rightarrow>
          \<lparr>result =
             Some (if errors_Is err ErrNilDocument \<or> errors_Is err ErrNoDocuments
                   then ErrNotFound else wrapError isTx err),
           calls = [], final = s, closed = False\<rparr>
      | Inr script \<Rightarrow>
          (case find_loop isTx consume s script of
             (res, cs, s') \<Rightarrow> \<lparr>result = res, calls = cs, final = s', closed = True\<rparr>))"

text \<open>
  FindOne (lines 66-78). \<open>decoded\<close> is what \<^verbatim>\<open>FindOne(...).DecodeBytes()\<close> returned.
\<close>

definition FindOne ::
  "(error \<Rightarrow> bool) \<Rightarrow> error + 'd \<Rightarrow> ('s, 'd) consumer \<Rightarrow> 's \<Rightarrow> ('s, 'd) outcome" where
  "FindOne isTx decoded consume s =
     (case decoded of
        Inl err \<Rightarrow>
          \<lparr>result =
             Some (if errors_Is err ErrNilDocument \<or> errors_Is err ErrNoDocuments
                   then ErrNotFound else wrapError isTx err),
           calls = [], final = s, closed = False\<rparr>
      | Inr raw \<Rightarrow>
          (case consume s (Some raw) of
             (r, s') \<Rightarrow>
               \<lparr>result = (if not_nil_not_EOF r then r else None),
                calls = [(Some raw, r)], final = s', closed = False\<rparr>))"

section \<open>Collection.SaveAll\<close>

text \<open>
  One upsert-replace operation of a batch:
  \<^verbatim>\<open>mongo.NewReplaceOneModel().SetFilter(bson.M{idKey: id}).SetReplacement(u).SetUpsert(true)\<close>.
\<close>

record 'u ReplaceOneModel =
  Filter :: "(string \<times> string) list"
  Replacement :: 'u
  Upsert :: bool

definition idKey :: string where
  "idKey = ''id''"

text \<open>
  SaveAll (lines 137-159). \<open>bulkWrite\<close> is the driver's answer to
  \<^verbatim>\<open>c.client.BulkWrite\<close>. The second component of the result lists the batches
  submitted to the driver, in order.
\<close>

definition SaveAll ::
  "(error \<Rightarrow> bool) \<Rightarrow> ('u ReplaceOneModel list \<Rightarrow> error option) \<Rightarrow> string list \<Rightarrow> 'u list
     \<Rightarrow> error option \<times> 'u ReplaceOneModel list list" where
  "SaveAll isTx bulkWrite ids updates =
     (if length ids = 0 \<or> length updates = 0 then (None, [])
      else if length ids \<noteq> length updates then
        (Some (wrapError isTx (New ''invalid save args'')), [])
      else
        (let writeModels =
               map (\<lambda>(i, u). \<lparr>Filter = [(idKey, ids ! i)], Replacement = u, Upsert = True\<rparr>)
                 (enumerate 0 updates)
         in (map_option (wrapError isTx) (bulkWrite writeModels), [writeModels])))"

section \<open>The in-memory user repository (package accountmemory)\<close>

text \<open>
  Modelled from the spec: \<^verbatim>\<open>util.SyncMap\<close> is outside src/. The spec calls it "a
  concurrent associative map from identifier to domain value" whose lookups are "a linear
  predicate scan over the map's current snapshot". The snapshot is an association list;
  \<open>SyncMap_Store\<close> replaces the value of a key that is present and adds the pair
  otherwise, \<open>SyncMap_Load\<close> reads a key, \<open>SyncMap_Find\<close> returns the first value in
  scan order that satisfies the predicate (\<open>None\<close> is the nil pointer).
\<close>

type_synonym ('k, 'v) SyncMap = "('k \<times> 'v) list"

definition SyncMap_Store :: "'k \<Rightarrow> 'v \<Rightarrow> ('k, 'v) SyncMap \<Rightarrow> ('k, 'v) SyncMap" where
  "SyncMap_Store k v m = AList.update k v m"

definition SyncMap_Load :: "'k \<Rightarrow> ('k, 'v) SyncMap \<Rightarrow> 'v option" where
  "SyncMap_Load k m = map_of m k"

fun SyncMap_Find :: "('k \<Rightarrow> 'v \<Rightarrow> bool) \<Rightarrow> ('k, 'v) SyncMap \<Rightarrow> 'v option" where
  "SyncMap_Find f [] = None"
| "SyncMap_Find f ((k, v) # m) = (if f k v then Some v else SyncMap_Find f m)"

text \<open>
  Modelled from the spec: \<^verbatim>\<open>rerror.ErrIfNil\<close> is outside src/. It gives the value when
  it is not nil and the given error otherwise ("NotFound for lookups with zero matches").
\<close>

definition ErrIfNil :: "'v option \<Rightarrow> error \<Rightarrow> error + 'v" where
  "ErrIfNil v e = (case v of None \<Rightarrow> Inl e | Some x \<Rightarrow> Inr x)"

text \<open>
  The user aggregate (package user) is outside src/ but for its identifier aliases.
  The repository only calls its accessors, which are taken as parameters: a
  \<open>user_domain\<close> gives, for the user type \<open>'u\<close>, the methods \<^verbatim>\<open>ID\<close>,
  \<^verbatim>\<open>ContainAuth\<close>, \<^verbatim>\<open>Email\<close>, \<^verbatim>\<open>Name\<close>, \<^verbatim>\<open>PasswordReset\<close>,
  \<^verbatim>\<open>Verification\<close> and the function \<^verbatim>\<open>user.AuthFrom\<close>. \<open>Token\<close> is the field read
  from a password reset request and \<open>Code\<close> the code of a verification.
\<close>

record PasswordReset =
  Token :: string

record Verification =
  Code :: string

record ('u, 'id, 'a) user_domain =
  ID :: "'u \<Rightarrow> 'id"
  ContainAuth :: "'u \<Rightarrow> 'a \<Rightarrow> bool"
  AuthFrom :: "string \<Rightarrow> 'a"
  Email :: "'u \<Rightarrow> string"
  Name :: "'u \<Rightarrow> string"
  GetPasswordReset :: "'u \<Rightarrow> PasswordReset option"
  GetVerification :: "'u \<Rightarrow> Verification option"

text \<open>The repository \<^verbatim>\<open>type User struct { data; err }\<close> (user.go, lines 13-16).\<close>

record ('u, 'id) User =
  data :: "('id, 'u) SyncMap"
  err :: "error option"

definition NewUser :: "('u, 'id) User" where
  "NewUser = \<lparr>data = [], err = None\<rparr>"

definition NewUserWith :: "('u, 'id, 'a) user_domain \<Rightarrow> 'u list \<Rightarrow> ('u, 'id) User" where
  "NewUserWith d users = fold (\<lambda>u r. r\<lparr>data := SyncMap_Store (ID d u) u (data r)\<rparr>) users NewUser"

definition SetUserError :: "('u, 'id) User \<Rightarrow> error option \<Rightarrow> ('u, 'id) User" where
  "SetUserError r e = r\<lparr>err := e\<rparr>"

text \<open>The lookups by attribute (user.go, lines 54-137).\<close>

definition FindBySub ::
  "('u, 'id, 'a) user_domain \<Rightarrow> ('u, 'id) User \<Rightarrow> string \<Rightarrow> error + 'u" where
  "FindBySub d r auth0sub =
     (case err r of
        Some e \<Rightarrow> Inl e
      | None \<Rightarrow>
          if auth0sub = '''' then Inl ErrInvalidParams
          else ErrIfNil
                 (SyncMap_Find (\<lambda>key value. ContainAuth d value (AuthFrom d auth0sub)) (data r))
                 ErrNotFound)"

definition FindByPasswordResetRequest ::
  "('u, 'id, 'a) user_domain \<Rightarrow> ('u, 'id) User \<Rightarrow> string \<Rightarrow> error + 'u" where
  "FindByPasswordResetRequest d r token =
     (case err r of
        Some e \<Rightarrow> Inl e
      | None \<Rightarrow>
          if token = '''' then Inl ErrInvalidParams
          else ErrIfNil
                 (SyncMap_Find
                    (\<lambda>key value. GetPasswordReset d value \<noteq> None \<and>
                       Token (the (GetPasswordReset d value)) = token)
                    (data r))
                 ErrNotFound)"

definition FindByEmail ::
  "('u, 'id, 'a) user_domain \<Rightarrow> ('u, 'id) User \<Rightarrow> string \<Rightarrow> error + 'u" where
  "FindByEmail d r email =
     (case err r of
        Some e \<Rightarrow> Inl e
      | None \<Rightarrow>
          if email = '''' then Inl ErrInvalidParams
          else ErrIfNil (SyncMap_Find (\<lambda>key value. Email d value = email) (data r)) ErrNotFound)"

definition FindByName ::
  "('u, 'id, 'a) user_domain \<Rightarrow> ('u, 'id) User \<Rightarrow> string \<Rightarrow> error + 'u" where
  "FindByName d r name =
     (case err r of
        Some e \<Rightarrow> Inl e
      | None \<Rightarrow>
          if name = '''' then Inl ErrInvalidParams
          else ErrIfNil (SyncMap_Find (\<lambda>key value. Name d value = name) (data r)) ErrNotFound)"

definition FindByNameOrEmail ::
  "('u, 'id, 'a) user_domain \<Rightarrow> ('u, 'id) User \<Rightarrow> string \<Rightarrow> error + 'u" where
  "FindByNameOrEmail d r nameOrEmail =
     (case err r of
        Some e \<Rightarrow> Inl e
      | None \<Rightarrow>
          if nameOrEmail = '''' then Inl ErrInvalidParams
          else ErrIfNil
                 (SyncMap_Find
                    (\<lambda>key value. Email d value = nameOrEmail \<or> Name d value = nameOrEmail)
                    (data r))
                 ErrNotFound)"

definition FindByVerification ::
  "('u, 'id, 'a) user_domain \<Rightarrow> ('u, 'id) User \<Rightarrow> string \<Rightarrow> error + 'u" where
  "FindByVerification d r code =
     (case err r of
        Some e \<Rightarrow> Inl e
      | None \<Rightarrow>
          if code = '''' then Inl ErrInvalidParams
          else ErrIfNil
                 (SyncMap_Find
                    (\<lambda>key value. GetVerification d value \<noteq> None \<and>
                       Code (the (GetVerification d value)) = code)
                    (data r))
                 ErrNotFound)"

text \<open>
  FindBySubOrCreate, Create and Save (user.go, lines 139-175) change the store: they
  return the repository after the call beside their result.
\<close>

definition FindBySubOrCreate ::
  "('u, 'id, 'a) user_domain \<Rightarrow> ('u, 'id) User \<Rightarrow> 'u \<Rightarrow> string
     \<Rightarrow> (error + 'u) \<times> ('u, 'id) User" where
  "FindBySubOrCreate d r u sub =
     (case err r of
        Some e \<Rightarrow> (Inl e, r)
      | None \<Rightarrow>
          (case SyncMap_Find (\<lambda>key value. ContainAuth d value (AuthFrom d sub)) (data r) of
             None \<Rightarrow> (Inr u, r\<lparr>data := SyncMap_Store (ID d u) u (data r)\<rparr>)
           | Some u2 \<Rightarrow> (Inr u2, r)))"

definition Create ::
  "('u, 'id, 'a) user_domain \<Rightarrow> ('u, 'id) User \<Rightarrow> 'u \<Rightarrow> error option \<times> ('u, 'id) User" where
  "Create d r u =
     (case err r of
        Some e \<Rightarrow> (Some e, r)
      | None \<Rightarrow>
          (case SyncMap_Load (ID d u) (data r) of
             None \<Rightarrow> (None, r\<lparr>data := SyncMap_Store (ID d u) u (data r)\<rparr>)
           | Some x \<Rightarrow> (Some ErrDuplicatedUser, r)))"

definition Save ::
  "('u, 'id, 'a) user_domain \<Rightarrow> ('u, 'id) User \<Rightarrow> 'u \<Rightarrow> error option \<times> ('u, 'id) User" where
  "Save d r u =
     (case err r of
        Some e \<Rightarrow> (Some e, r)
      | None \<Rightarrow> (None, r\<lparr>data := SyncMap_Store (ID d u) u (data r)\<rparr>))"

text \<open>
  A small user aggregate on which the repository is run on concrete stores: a user with
  an identifier, a name, an email address, the subs of its auths, a verification and a
  password reset request. An auth is its sub, and a user contains an auth when the sub
  is among its own.
\<close>

record demo_user =
  uid :: string
  uname :: string
  uemail :: string
  usubs :: "string list"
  uverification :: "Verification option"
  upasswordReset :: "PasswordReset option"

definition demo_domain :: "(demo_user, string, string) user_domain" where
  "demo_domain =
     \<lparr>ID = uid, ContainAuth = (\<lambda>u a. a \<in> set (usubs u)), AuthFrom = (\<lambda>s. s),
      Email = uemail, Name = uname, GetPasswordReset = upasswordReset,
      GetVerification = uverification\<rparr>"

definition alice :: demo_user where
  "alice = \<lparr>uid = ''u1'', uname = ''alice'', uemail = ''alice@example.com'',
     usubs = [''sub-123''], uverification = Some \<lparr>Code = ''c1''\<rparr>,
     upasswordReset = Some \<lparr>Token = ''t1''\<rparr>\<rparr>"

definition bob :: demo_user where
  "bob = \<lparr>uid = ''u2'', uname = ''bob'', uemail = ''bob@example.com'',
     usubs = [''sub-123''], uverification = None, upasswordReset = None\<rparr>"

definition alice2 :: demo_user where
  "alice2 = alice\<lparr>uname := ''alice the second''\<rparr>"

definition carol :: demo_user where
  "carol = \<lparr>uid = ''u3'', uname = ''carol'', uemail = ''carol@example.com'',
     usubs = [], uverification = None, upasswordReset = None\<rparr>"

section \<open>Pagination (package usecasex)\<close>

text \<open>
  The structs of pagination.go hold pointers, and Clone is about which cells two
  paginations share, so the structs and what their pointer fields point to live in a
  store. A pointer is \<open>None\<close> (nil) or the address of a cell; every type has its own
  cells, and a new cell takes the next free address. \<^verbatim>\<open>Before\<close> and \<^verbatim>\<open>After\<close> point
  to \<^verbatim>\<open>Cursor\<close> cells (a cursor is a string), \<^verbatim>\<open>First\<close> and \<^verbatim>\<open>Last\<close> to
  \<^verbatim>\<open>int64\<close> cells.
\<close>

type_synonym ptr = "nat option"

record CursorPagination =
  Before :: ptr
  After :: ptr
  First :: ptr
  Last :: ptr

record OffsetPagination =
  Offset_int64 :: "64 word"
  Limit :: "64 word"

record Pagination =
  Cursor :: ptr
  Offset :: ptr

record heap =
  paginations :: "Pagination list"
  cursorPaginations :: "CursorPagination list"
  offsetPaginations :: "OffsetPagination list"
  cursors :: "string list"
  int64s :: "64 word list"

text \<open>
  \<^verbatim>\<open>CursorPagination.Wrap\<close> and \<^verbatim>\<open>OffsetPagination.Wrap\<close> (lines 14-18, 25-29): the
  receiver is a copy \<open>p\<close> of the descriptor; \<^verbatim>\<open>&p\<close> puts it into a new cell, and the
  new Pagination points to it.
\<close>

definition CursorPagination_Wrap :: "heap \<Rightarrow> CursorPagination \<Rightarrow> ptr \<times> heap" where
  "CursorPagination_Wrap h p =
     (Some (length (paginations h)),
      h\<lparr>cursorPaginations := cursorPaginations h @ [p],
        paginations :=
          paginations h @ [\<lparr>Cursor = Some (length (cursorPaginations h)), Offset = None\<rparr>]\<rparr>)"

definition OffsetPagination_Wrap :: "heap \<Rightarrow> OffsetPagination \<Rightarrow> ptr \<times> heap" where
  "OffsetPagination_Wrap h p =
     (Some (length (paginations h)),
      h\<lparr>offsetPaginations := offsetPaginations h @ [p],
        paginations :=
          paginations h @ [\<lparr>Cursor = None, Offset = Some (length (offsetPaginations h))\<rparr>]\<rparr>)"

text \<open>
  Modelled from the spec: \<^verbatim>\<open>util.CloneRef\<close> is outside src/. By the spec Clone is
  "a deep-clone operation producing an independent copy (mutating the clone must not
  affect the source, and vice versa)" and "produces a new union with independently-owned
  copies of whichever descriptor is set": CloneRef of nil is nil, and CloneRef of a
  pointer is a pointer to a new cell that holds a copy of the struct pointed to, in
  which every pointer field points to a new cell holding a copy of its target.

  \<open>CloneRef\<close> is CloneRef at a type without pointer fields (OffsetPagination). Its
  result is \<open>None\<close> when the pointer is not the address of a cell, which no pointer of
  a Go program is. \<open>copy_cell\<close> copies the target of a pointer field into a new cell,
  and \<open>CloneRef_CursorPagination\<close> is CloneRef at CursorPagination, which copies the
  targets of \<^verbatim>\<open>Before\<close>, \<^verbatim>\<open>After\<close>, \<^verbatim>\<open>First\<close> and \<^verbatim>\<open>Last\<close> and then the
  descriptor.
\<close>

definition CloneRef :: "'a list \<Rightarrow> ptr \<Rightarrow> (ptr \<times> 'a list) option" where
  "CloneRef cells r =
     (case r of
        None \<Rightarrow> Some (None, cells)
      | Some a \<Rightarrow>
          if a < length cells then Some (Some (length cells), cells @ [cells ! a]) else None)"

definition copy_cell :: "'a list \<Rightarrow> ptr \<Rightarrow> ptr \<times> 'a list" where
  "copy_cell cells r =
     (case r of
        None \<Rightarrow> (None, cells)
      | Some a \<Rightarrow>
          if a < length cells then (Some (length cells), cells @ [cells ! a])
          else (None, cells))"

definition CloneRef_CursorPagination :: "heap \<Rightarrow> ptr \<Rightarrow> (ptr \<times> heap) option" where
  "CloneRef_CursorPagination h r =
     (case r of
        None \<Rightarrow> Some (None, h)
      | Some a \<Rightarrow>
          if a < length (cursorPaginations h) then
            (let cp = cursorPaginations h ! a;
                 b = copy_cell (cursors h) (Before cp);
                 af = copy_cell (snd b) (After cp);
                 f = copy_cell (int64s h) (First cp);
                 l = copy_cell (snd f) (Last cp)
             in Some (Some (length (cursorPaginations h)),
                      h\<lparr>cursorPaginations :=
                          cursorPaginations h @
                            [\<lparr>Before = fst b, After = fst af, First = fst f, Last = fst l\<rparr>],
                        cursors := snd af, int64s := snd l\<rparr>))
          else None)"

text \<open>\<^verbatim>\<open>Pagination.Clone\<close> (lines 36-45).\<close>

definition Clone :: "heap \<Rightarrow> ptr \<Rightarrow> (ptr \<times> heap) option" where
  "Clone h p =
     (case p of
        None \<Rightarrow> Some (None, h)
      | Some a \<Rightarrow>
          if a < length (paginations h) then
            (case CloneRef_CursorPagination h (Cursor (paginations h ! a)) of
               None \<Rightarrow> None
             | Some (c, h1) \<Rightarrow>
                 (case CloneRef (offsetPaginations h1) (Offset (paginations h ! a)) of
                    None \<Rightarrow> None
                  | Some (off, ops) \<Rightarrow>
                      Some (Some (length (paginations h)),
                            h1\<lparr>paginations := paginations h @ [\<lparr>Cursor = c, Offset = off\<rparr>],
                               offsetPaginations := ops\<rparr>)))
          else None)"

section \<open>Vocabulary of the properties\<close>

text \<open>
  Reading through a pointer, and the value of a Pagination as seen through a pointer to
  it: the descriptor behind \<^verbatim>\<open>p.Cursor\<close> and the one behind \<^verbatim>\<open>p.Offset\<close>.
\<close>

definition deref :: "'a list \<Rightarrow> ptr \<Rightarrow> 'a option" where
  "deref cells p =
     (case p of None \<Rightarrow> None | Some a \<Rightarrow> if a < length cells then Some (cells ! a) else None)"

definition view :: "heap \<Rightarrow> ptr \<Rightarrow> (CursorPagination option \<times> OffsetPagination option) option" where
  "view h p =
     map_option
       (\<lambda>pg. (deref (cursorPaginations h) (Cursor pg), deref (offsetPaginations h) (Offset pg)))
       (deref (paginations h) p)"

text \<open>A pointer is nil or the address of a cell.\<close>

definition valid_ptr :: "'a list \<Rightarrow> ptr \<Rightarrow> bool" where
  "valid_ptr cells p = (case p of None \<Rightarrow> True | Some a \<Rightarrow> a < length cells)"

text \<open>
  Assignments through a pointer to a Pagination: \<^verbatim>\<open>*p.Cursor = v\<close> (any change of
  the fields of the cursor descriptor), \<^verbatim>\<open>*p.Offset = v\<close>, and \<^verbatim>\<open>*p = v\<close>.
\<close>

definition assign_Cursor :: "heap \<Rightarrow> nat \<Rightarrow> CursorPagination \<Rightarrow> heap" where
  "assign_Cursor h a v =
     (case Cursor (paginations h ! a) of
        None \<Rightarrow> h
      | Some c \<Rightarrow> h\<lparr>cursorPaginations := (cursorPaginations h)[c := v]\<rparr>)"

definition assign_Offset :: "heap \<Rightarrow> nat \<Rightarrow> OffsetPagination \<Rightarrow> heap" where
  "assign_Offset h a v =
     (case Offset (paginations h ! a) of
        None \<Rightarrow> h
      | Some c \<Rightarrow> h\<lparr>offsetPaginations := (offsetPaginations h)[c := v]\<rparr>)"

definition assign_Pagination :: "heap \<Rightarrow> nat \<Rightarrow> Pagination \<Rightarrow> heap" where
  "assign_Pagination h a v = h\<lparr>paginations := (paginations h)[a := v]\<rparr>"

text \<open>
  Everything reachable from a pointer to a Pagination: the cursors and counts behind the
  pointer fields of its cursor descriptor, and its offset descriptor.
\<close>

definition deep_Cursor ::
  "heap \<Rightarrow> CursorPagination
     \<Rightarrow> string option \<times> string option \<times> 64 word option \<times> 64 word option" where
  "deep_Cursor h c =
     (deref (cursors h) (Before c), deref (cursors h) (After c),
      deref (int64s h) (First c), deref (int64s h) (Last c))"

definition deep_view ::
  "heap \<Rightarrow> ptr
     \<Rightarrow> ((string option \<times> string option \<times> 64 word option \<times> 64 word option) option \<times>
         OffsetPagination option) option" where
  "deep_view h p =
     map_option
       (\<lambda>pg. (map_option (deep_Cursor h) (deref (cursorPaginations h) (Cursor pg)),
              deref (offsetPaginations h) (Offset pg)))
       (deref (paginations h) p)"

text \<open>
  The pointer \<^verbatim>\<open>p.Cursor.f\<close> for a pointer field \<open>f\<close> of the cursor descriptor (nil
  when \<^verbatim>\<open>p.Cursor\<close> is nil), and the writes \<^verbatim>\<open>*q = x\<close> through a pointer to a
  cursor and through a pointer to a count.
\<close>

definition field_of_Cursor :: "heap \<Rightarrow> nat \<Rightarrow> (CursorPagination \<Rightarrow> ptr) \<Rightarrow> ptr" where
  "field_of_Cursor h a f =
     (case Cursor (paginations h ! a) of
        None \<Rightarrow> None
      | Some c \<Rightarrow> f (cursorPaginations h ! c))"

definition write_cursor :: "heap \<Rightarrow> ptr \<Rightarrow> string \<Rightarrow> heap" where
  "write_cursor h q x = (case q of None \<Rightarrow> h | Some i \<Rightarrow> h\<lparr>cursors := (cursors h)[i := x]\<rparr>)"

definition write_int64 :: "heap \<Rightarrow> ptr \<Rightarrow> 64 word \<Rightarrow> heap" where
  "write_int64 h q x = (case q of None \<Rightarrow> h | Some i \<Rightarrow> h\<lparr>int64s := (int64s h)[i := x]\<rparr>)"

text \<open>
  A Pagination at address \<open>a\<close> as a Go program can hold it: its \<^verbatim>\<open>Cursor\<close> and
  \<^verbatim>\<open>Offset\<close> are nil or point to a descriptor, and so do the pointer fields of its
  cursor descriptor to their targets.
\<close>

definition valid_CursorPagination :: "heap \<Rightarrow> CursorPagination \<Rightarrow> bool" where
  "valid_CursorPagination h c =
     (valid_ptr (cursors h) (Before c) \<and> valid_ptr (cursors h) (After c) \<and>
      valid_ptr (int64s h) (First c) \<and> valid_ptr (int64s h) (Last c))"

definition valid_Pagination :: "heap \<Rightarrow> nat \<Rightarrow> bool" where
  "valid_Pagination h a =
     (a < length (paginations h) \<and>
      valid_ptr (cursorPaginations h) (Cursor (paginations h ! a)) \<and>
      valid_ptr (offsetPaginations h) (Offset (paginations h ! a)) \<and>
      (case Cursor (paginations h ! a) of
         None \<Rightarrow> True
       | Some c \<Rightarrow> valid_CursorPagination h (cursorPaginations h ! c)))"



definition stop_at_first :: "(unit, 'd) consumer" where
  "stop_at_first s d = (Some EOF, s)"


definition doc_step :: "'d \<Rightarrow> 'd cursor_step" where
  "doc_step d = \<lparr>next_ok = True, step_err = None, current = d\<rparr>"

definition no_tx :: "error \<Rightarrow> bool" where
  "no_tx e = False"

text \<open>
  Sample descriptors and the empty store, for concrete runs of Wrap and Clone.
\<close>

definition empty_heap :: heap where
  "empty_heap =
     \<lparr>paginations = [], cursorPaginations = [], offsetPaginations = [], cursors = [],
      int64s = []\<rparr>"

definition first_ten :: CursorPagination where
  "first_ten = \<lparr>Before = None, After = Some 0, First = Some 1, Last = None\<rparr>"

definition skip_take :: OffsetPagination where
  "skip_take = \<lparr>Offset_int64 = 20, Limit = 10\<rparr>"

definition one_cursor_heap :: heap where
  "one_cursor_heap =
     snd (CursorPagination_Wrap (empty_heap\<lparr>cursors := [''id-7''], int64s := [5, 10]\<rparr>)
            first_ten)"

section \<open>Properties of Find\<close>








theorem Find_returns_sentinel_of_document_call:
  "Find isTx (Inr [doc_step d]) stop_at_first () =
     \<lparr>result = Some EOF, calls = [(Some d, Some EOF)], final = (), closed = True\<rparr> \<and>
   FindOne isTx (Inr d) stop_at_first () =
     \<lparr>result = None, calls = [(Some d, Some EOF)], final = (), closed = False\<rparr>"
  by (simp add: Find_def FindOne_def stop_at_first_def doc_step_def)

section \<open>Properties of SaveAll\<close>

text \<open>
  C3. When both slices are non-empty and their lengths differ, SaveAll returns an error
  and submits no batch to the driver; the error is \<^verbatim>\<open>wrapError\<close> of the plain error
  "invalid save args", which is the Internal error unless \<^verbatim>\<open>IsTransactionError\<close> holds
  of that plain error.
\<close>

theorem SaveAll_length_mismatch:
  assumes "ids \<noteq> []" and "updates \<noteq> []" and "length ids \<noteq> length updates"
  shows "snd (SaveAll isTx bulkWrite ids updates) = [] \<and>
         fst (SaveAll isTx bulkWrite ids updates) =
           Some (wrapError isTx (New ''invalid save args'')) \<and>
         (\<not> isTx (New ''invalid save args'') \<longrightarrow>
            fst (SaveAll isTx bulkWrite ids updates) =
              Some (ErrInternalBy (New ''invalid save args'')))"
  using assms by (simp add: SaveAll_def wrapError_def)

theorem SaveAll_length_mismatch_witness:
  "SaveAll no_tx (\<lambda>b. None) [''a'', ''b''] [1 :: nat] =
     (Some (ErrInternalBy (New ''invalid save args'')), [])"
proof -
  have tx: "\<not> no_tx (New ''invalid save args'')"
    by (simp add: no_tx_def)
  have len: "[''a'', ''b''] \<noteq> []" "[1 :: nat] \<noteq> []"
      "length [''a'', ''b''] \<noteq> length [1 :: nat]"
    by simp_all
  from SaveAll_length_mismatch [OF len, of no_tx "\<lambda>b. None"] tx
  have "snd (SaveAll no_tx (\<lambda>b. None) [''a'', ''b''] [1 :: nat]) = [] \<and>
        fst (SaveAll no_tx (\<lambda>b. None) [''a'', ''b''] [1 :: nat]) =
          Some (ErrInternalBy (New ''invalid save args''))"
    by blast
  then show ?thesis
    by (simp add: prod_eq_iff)
qed

text \<open>
  C4. When either slice is empty, whatever the other holds, SaveAll returns nil and
  submits no batch to the driver.
\<close>

theorem SaveAll_empty_is_noop:
  assumes "ids = [] \<or> updates = []"
  shows "SaveAll isTx bulkWrite ids updates = (None, [])"
  using assms by (auto simp: SaveAll_def)

theorem SaveAll_empty_is_noop_witness:
  "SaveAll no_tx (\<lambda>b. Some EOF) [] [1 :: nat, 2] = (None, []) \<and>
   SaveAll no_tx (\<lambda>b. Some EOF) [''a''] ([] :: nat list) = (None, [])"
  using SaveAll_empty_is_noop [of "[]" "[1 :: nat, 2]" no_tx "\<lambda>b. Some EOF"]
        SaveAll_empty_is_noop [of "[''a'']" "[] :: nat list" no_tx "\<lambda>b. Some EOF"]
  by simp

section \<open>Properties of the in-memory user repository\<close>

lemma SyncMap_Find_None_iff:
  "SyncMap_Find f m = None \<longleftrightarrow> (\<forall>kv \<in> set m. \<not> f (fst kv) (snd kv))"
  by (induction f m rule: SyncMap_Find.induct) auto

lemma SyncMap_Find_SomeD:
  "SyncMap_Find f m = Some v \<Longrightarrow> \<exists>k. (k, v) \<in> set m \<and> f k v"
  by (induction f m rule: SyncMap_Find.induct) (auto split: if_splits)

lemma SyncMap_Store_entries:
  "set (SyncMap_Store k v m) \<subseteq> insert (k, v) (set m)"
  unfolding SyncMap_Store_def by (induction m) auto

lemma SyncMap_Store_stored:
  "(k, v) \<in> set (SyncMap_Store k v m)"
  unfolding SyncMap_Store_def by (induction m) auto

lemma SyncMap_Load_Store:
  "SyncMap_Load k' (SyncMap_Store k v m) = (if k' = k then Some v else SyncMap_Load k' m)"
  by (simp add: SyncMap_Load_def SyncMap_Store_def update_conv')

lemma SyncMap_Find_unique:
  assumes "(k, u) \<in> set m" and "f k u"
    and "\<forall>kv \<in> set m. f (fst kv) (snd kv) \<longrightarrow> snd kv = u"
  shows "SyncMap_Find f m = Some u"
proof (cases "SyncMap_Find f m")
  case None
  with assms(1,2) show ?thesis
    by (auto simp: SyncMap_Find_None_iff)
next
  case (Some v)
  from SyncMap_Find_SomeD [OF Some] assms(3) have "v = u" by auto
  with Some show ?thesis by simp
qed

lemma lookup_no_match:
  "\<forall>kv \<in> set m. \<not> f (fst kv) (snd kv) \<Longrightarrow> ErrIfNil (SyncMap_Find f m) e = Inl e"
proof -
  assume "\<forall>kv \<in> set m. \<not> f (fst kv) (snd kv)"
  then have "SyncMap_Find f m = None"
    by (simp add: SyncMap_Find_None_iff)
  then show ?thesis
    by (simp add: ErrIfNil_def)
qed

text \<open>
  C5 (amended). When no fault is injected and the identifier of \<open>u\<close> is present in
  the store, Create returns \<^verbatim>\<open>ErrDuplicatedUser\<close> and leaves the repository as it was,
  whereas Save returns nil, after which the identifier holds \<open>u\<close> and every other
  identifier holds what it held.
\<close>

theorem Create_duplicate_Save_overwrites:
  assumes "err r = None" and "SyncMap_Load (ID d u) (data r) = Some old"
  shows "Create d r u = (Some ErrDuplicatedUser, r) \<and>
         fst (Save d r u) = None \<and>
         SyncMap_Load (ID d u) (data (snd (Save d r u))) = Some u \<and>
         (\<forall>k. k \<noteq> ID d u \<longrightarrow>
            SyncMap_Load k (data (snd (Save d r u))) = SyncMap_Load k (data r))"
  using assms by (simp add: Create_def Save_def SyncMap_Load_Store)

theorem Create_duplicate_Save_overwrites_witness:
  "Create demo_domain (NewUserWith demo_domain [alice, bob]) alice2 =
     (Some ErrDuplicatedUser, NewUserWith demo_domain [alice, bob]) \<and>
   Save demo_domain (NewUserWith demo_domain [alice, bob]) alice2 =
     (None, NewUserWith demo_domain [alice2, bob])"
proof -
  let ?r = "NewUserWith demo_domain [alice, bob] :: (demo_user, string) User"
  have r: "?r = \<lparr>data = [(''u1'', alice), (''u2'', bob)], err = None\<rparr>"
    by (simp add: NewUserWith_def NewUser_def SyncMap_Store_def demo_domain_def alice_def bob_def)
  have r2: "NewUserWith demo_domain [alice2, bob] =
      \<lparr>data = [(''u1'', alice2), (''u2'', bob)], err = None\<rparr>"
    by (simp add: NewUserWith_def NewUser_def SyncMap_Store_def demo_domain_def alice_def
        alice2_def bob_def)
  have id: "ID demo_domain alice2 = ''u1''"
    by (simp add: demo_domain_def alice2_def alice_def)
  have e: "err ?r = None" by (simp add: r)
  have l: "SyncMap_Load (ID demo_domain alice2) (data ?r) = Some alice"
    by (simp add: r id SyncMap_Load_def)
  from Create_duplicate_Save_overwrites [OF e l]
  have c: "Create demo_domain ?r alice2 = (Some ErrDuplicatedUser, ?r)" by blast
  have s: "Save demo_domain ?r alice2 = (None, NewUserWith demo_domain [alice2, bob])"
    by (simp add: r r2 Save_def id SyncMap_Store_def)
  from c s show ?thesis by blast
qed

text \<open>
  With a fault injected, Create on a present identifier returns the injected error, not
  \<^verbatim>\<open>ErrDuplicatedUser\<close>, and Save returns that error too (lines 155-157, 169-171).
\<close>

theorem Create_with_fault_counterexample:
  "SyncMap_Load (ID demo_domain alice2)
     (data (SetUserError (NewUserWith demo_domain [alice]) (Some ErrNotFound))) = Some alice \<and>
   \<not> (fst (Create demo_domain (SetUserError (NewUserWith demo_domain [alice]) (Some ErrNotFound))
             alice2) = Some ErrDuplicatedUser) \<and>
   \<not> (fst (Save demo_domain (SetUserError (NewUserWith demo_domain [alice]) (Some ErrNotFound))
             alice2) = None)"
  by (simp add: SetUserError_def NewUserWith_def NewUser_def SyncMap_Store_def SyncMap_Load_def
      demo_domain_def alice_def alice2_def Create_def Save_def)

text \<open>
  C6 (amended). When no fault is injected and no stored user contains the auth of
  \<open>sub\<close>, FindBySubOrCreate stores the candidate \<open>u\<close> under its identifier and
  returns it. If \<open>u\<close> itself contains the auth of \<open>sub\<close>, a second call with any
  candidate \<open>u'\<close> and the same sub returns \<open>u\<close> and leaves the repository as it was,
  in whatever order the store is scanned.
\<close>

theorem FindBySubOrCreate_stores_then_finds:
  assumes nofault: "err r = None"
    and absent: "\<forall>kv \<in> set (data r). \<not> ContainAuth d (snd kv) (AuthFrom d sub)"
    and r1: "r1 = r\<lparr>data := SyncMap_Store (ID d u) u (data r)\<rparr>"
  shows "FindBySubOrCreate d r u sub = (Inr u, r1) \<and>
         SyncMap_Load (ID d u) (data r1) = Some u \<and>
         (ContainAuth d u (AuthFrom d sub) \<longrightarrow>
            FindBySubOrCreate d r1 u' sub = (Inr u, r1) \<and>
            (\<forall>r2. err r2 = None \<and> set (data r2) = set (data r1) \<longrightarrow>
               FindBySubOrCreate d r2 u' sub = (Inr u, r2)))"
proof -
  let ?f = "\<lambda>key value. ContainAuth d value (AuthFrom d sub)"
  from absent have none: "SyncMap_Find ?f (data r) = None"
    by (simp add: SyncMap_Find_None_iff)
  with nofault r1 have first: "FindBySubOrCreate d r u sub = (Inr u, r1)"
    by (simp add: FindBySubOrCreate_def)
  have load: "SyncMap_Load (ID d u) (data r1) = Some u"
    by (simp add: r1 SyncMap_Load_Store)
  have stored: "(ID d u, u) \<in> set (data r1)"
    by (simp add: r1 SyncMap_Store_stored)
  have only: "\<forall>kv \<in> set (data r1). ?f (fst kv) (snd kv) \<longrightarrow> snd kv = u"
  proof
    fix kv assume "kv \<in> set (data r1)"
    with SyncMap_Store_entries [of "ID d u" u "data r"] r1
    have "kv = (ID d u, u) \<or> kv \<in> set (data r)" by auto
    with absent show "?f (fst kv) (snd kv) \<longrightarrow> snd kv = u" by auto
  qed
  from nofault r1 have e1: "err r1 = None" by simp
  have later: "ContainAuth d u (AuthFrom d sub) \<longrightarrow>
      FindBySubOrCreate d r1 u' sub = (Inr u, r1) \<and>
      (\<forall>r2. err r2 = None \<and> set (data r2) = set (data r1) \<longrightarrow>
         FindBySubOrCreate d r2 u' sub = (Inr u, r2))"
  proof
    assume own: "ContainAuth d u (AuthFrom d sub)"
    have again: "FindBySubOrCreate d r2 u' sub = (Inr u, r2)"
      if e2: "err r2 = None" and d2: "set (data r2) = set (data r1)" for r2
    proof -
      from stored d2 have m: "(ID d u, u) \<in> set (data r2)" by simp
      from only d2 have o: "\<forall>kv \<in> set (data r2). ?f (fst kv) (snd kv) \<longrightarrow> snd kv = u"
        by simp
      have "SyncMap_Find ?f (data r2) = Some u"
        by (rule SyncMap_Find_unique [OF m own o])
      with e2 show ?thesis
        by (simp add: FindBySubOrCreate_def)
    qed
    have second: "FindBySubOrCreate d r1 u' sub = (Inr u, r1)"
      by (rule again [OF e1 refl])
    have every: "\<forall>r2. err r2 = None \<and> set (data r2) = set (data r1) \<longrightarrow>
        FindBySubOrCreate d r2 u' sub = (Inr u, r2)"
      using again by simp
    show "FindBySubOrCreate d r1 u' sub = (Inr u, r1) \<and>
      (\<forall>r2. err r2 = None \<and> set (data r2) = set (data r1) \<longrightarrow>
         FindBySubOrCreate d r2 u' sub = (Inr u, r2))"
      by (intro conjI second every)
  qed
  show ?thesis
    by (intro conjI first load later)
qed

theorem FindBySubOrCreate_stores_then_finds_witness:
  "FindBySubOrCreate demo_domain NewUser alice ''sub-123'' =
     (Inr alice, NewUserWith demo_domain [alice]) \<and>
   FindBySubOrCreate demo_domain (NewUserWith demo_domain [alice]) bob ''sub-123'' =
     (Inr alice, NewUserWith demo_domain [alice]) \<and>
   FindBySubOrCreate demo_domain NewUser carol ''sub-123'' =
     (Inr carol, NewUserWith demo_domain [carol])"
proof -
  let ?r = "NewUser :: (demo_user, string) User"
  let ?r1 = "NewUserWith demo_domain [alice]"
  let ?r3 = "NewUserWith demo_domain [carol]"
  have e: "err ?r = None" by (simp add: NewUser_def)
  have a: "\<forall>kv \<in> set (data ?r).
      \<not> ContainAuth demo_domain (snd kv) (AuthFrom demo_domain ''sub-123'')"
    by (simp add: NewUser_def)
  have o: "ContainAuth demo_domain alice (AuthFrom demo_domain ''sub-123'')"
    by (simp add: demo_domain_def alice_def)
  have r1: "?r1 = ?r\<lparr>data := SyncMap_Store (ID demo_domain alice) alice (data ?r)\<rparr>"
    by (simp add: NewUserWith_def)
  have r3: "?r3 = ?r\<lparr>data := SyncMap_Store (ID demo_domain carol) carol (data ?r)\<rparr>"
    by (simp add: NewUserWith_def)
  from FindBySubOrCreate_stores_then_finds [OF e a r1, of bob] o
  have w1: "FindBySubOrCreate demo_domain ?r alice ''sub-123'' = (Inr alice, ?r1)"
    and w2: "FindBySubOrCreate demo_domain ?r1 bob ''sub-123'' = (Inr alice, ?r1)"
    by blast+
  from FindBySubOrCreate_stores_then_finds [OF e a r3, of bob]
  have w3: "FindBySubOrCreate demo_domain ?r carol ''sub-123'' = (Inr carol, ?r3)"
    by blast
  show ?thesis
    by (intro conjI w1 w2 w3)
qed

text \<open>
  A candidate that does not contain the auth of the sub is stored by the first call and
  not found by the second, which stores and returns its own candidate; and with a fault
  injected the first call stores nothing and returns the injected error.
\<close>

theorem FindBySubOrCreate_counterexample:
  "\<not> (fst (FindBySubOrCreate demo_domain
             (snd (FindBySubOrCreate demo_domain NewUser carol ''sub-123'')) bob ''sub-123'') =
        Inr carol) \<and>
   FindBySubOrCreate demo_domain NewUser carol ''sub-123'' =
     (Inr carol, NewUserWith demo_domain [carol]) \<and>
   FindBySubOrCreate demo_domain (NewUserWith demo_domain [carol]) bob ''sub-123'' =
     (Inr bob, NewUserWith demo_domain [carol, bob]) \<and>
   FindBySubOrCreate demo_domain (SetUserError NewUser (Some ErrNotFound)) alice ''sub-123'' =
     (Inl ErrNotFound, SetUserError NewUser (Some ErrNotFound))"
  by (simp add: FindBySubOrCreate_def SetUserError_def NewUserWith_def NewUser_def
      SyncMap_Store_def demo_domain_def alice_def bob_def carol_def)

text \<open>
  C7. When no fault is injected, each of FindBySub, FindByEmail, FindByName,
  FindByNameOrEmail, FindByVerification and FindByPasswordResetRequest returns
  \<^verbatim>\<open>ErrInvalidParams\<close> on the empty string, and \<^verbatim>\<open>ErrNotFound\<close> on a non-empty
  argument \<open>x\<close> that no stored user matches under the predicate of that lookup.
\<close>

theorem lookups_reject_empty_and_report_NotFound:
  assumes nofault: "err r = None"
  shows "FindBySub d r '''' = Inl ErrInvalidParams \<and>
         FindByEmail d r '''' = Inl ErrInvalidParams \<and>
         FindByName d r '''' = Inl ErrInvalidParams \<and>
         FindByNameOrEmail d r '''' = Inl ErrInvalidParams \<and>
         FindByVerification d r '''' = Inl ErrInvalidParams \<and>
         FindByPasswordResetRequest d r '''' = Inl ErrInvalidParams \<and>
         (x \<noteq> '''' \<and> (\<forall>kv \<in> set (data r). \<not> ContainAuth d (snd kv) (AuthFrom d x)) \<longrightarrow>
            FindBySub d r x = Inl ErrNotFound) \<and>
         (x \<noteq> '''' \<and> (\<forall>kv \<in> set (data r). Email d (snd kv) \<noteq> x) \<longrightarrow>
            FindByEmail d r x = Inl ErrNotFound) \<and>
         (x \<noteq> '''' \<and> (\<forall>kv \<in> set (data r). Name d (snd kv) \<noteq> x) \<longrightarrow>
            FindByName d r x = Inl ErrNotFound) \<and>
         (x \<noteq> '''' \<and> (\<forall>kv \<in> set (data r). Email d (snd kv) \<noteq> x \<and> Name d (snd kv) \<noteq> x) \<longrightarrow>
            FindByNameOrEmail d r x = Inl ErrNotFound) \<and>
         (x \<noteq> '''' \<and>
          (\<forall>kv \<in> set (data r). \<forall>v. GetVerification d (snd kv) = Some v \<longrightarrow> Code v \<noteq> x) \<longrightarrow>
            FindByVerification d r x = Inl ErrNotFound) \<and>
         (x \<noteq> '''' \<and>
          (\<forall>kv \<in> set (data r). \<forall>p. GetPasswordReset d (snd kv) = Some p \<longrightarrow> Token p \<noteq> x) \<longrightarrow>
            FindByPasswordResetRequest d r x = Inl ErrNotFound)"
proof -
  have e1: "FindBySub d r '''' = Inl ErrInvalidParams"
    using nofault by (simp add: FindBySub_def)
  have e2: "FindByEmail d r '''' = Inl ErrInvalidParams"
    using nofault by (simp add: FindByEmail_def)
  have e3: "FindByName d r '''' = Inl ErrInvalidParams"
    using nofault by (simp add: FindByName_def)
  have e4: "FindByNameOrEmail d r '''' = Inl ErrInvalidParams"
    using nofault by (simp add: FindByNameOrEmail_def)
  have e5: "FindByVerification d r '''' = Inl ErrInvalidParams"
    using nofault by (simp add: FindByVerification_def)
  have e6: "FindByPasswordResetRequest d r '''' = Inl ErrInvalidParams"
    using nofault by (simp add: FindByPasswordResetRequest_def)
  have n1: "x \<noteq> '''' \<and> (\<forall>kv \<in> set (data r). \<not> ContainAuth d (snd kv) (AuthFrom d x)) \<longrightarrow>
      FindBySub d r x = Inl ErrNotFound"
    using nofault by (simp add: FindBySub_def lookup_no_match)
  have n2: "x \<noteq> '''' \<and> (\<forall>kv \<in> set (data r). Email d (snd kv) \<noteq> x) \<longrightarrow>
      FindByEmail d r x = Inl ErrNotFound"
    using nofault by (simp add: FindByEmail_def lookup_no_match)
  have n3: "x \<noteq> '''' \<and> (\<forall>kv \<in> set (data r). Name d (snd kv) \<noteq> x) \<longrightarrow>
      FindByName d r x = Inl ErrNotFound"
    using nofault by (simp add: FindByName_def lookup_no_match)
  have n4: "x \<noteq> '''' \<and> (\<forall>kv \<in> set (data r). Email d (snd kv) \<noteq> x \<and> Name d (snd kv) \<noteq> x) \<longrightarrow>
      FindByNameOrEmail d r x = Inl ErrNotFound"
    using nofault by (simp add: FindByNameOrEmail_def lookup_no_match)
  have n5: "x \<noteq> '''' \<and>
      (\<forall>kv \<in> set (data r). \<forall>v. GetVerification d (snd kv) = Some v \<longrightarrow> Code v \<noteq> x) \<longrightarrow>
      FindByVerification d r x = Inl ErrNotFound"
  proof (intro impI, elim conjE)
    assume x: "x \<noteq> ''''"
      and no: "\<forall>kv \<in> set (data r). \<forall>v. GetVerification d (snd kv) = Some v \<longrightarrow> Code v \<noteq> x"
    have "\<forall>kv \<in> set (data r). \<not> (GetVerification d (snd kv) \<noteq> None \<and>
        Code (the (GetVerification d (snd kv))) = x)"
    proof
      fix kv assume kv: "kv \<in> set (data r)"
      show "\<not> (GetVerification d (snd kv) \<noteq> None \<and> Code (the (GetVerification d (snd kv))) = x)"
      proof (cases "GetVerification d (snd kv)")
        case None
        then show ?thesis by simp
      next
        case (Some v)
        with no kv have "Code v \<noteq> x" by blast
        with Some show ?thesis by simp
      qed
    qed
    from lookup_no_match [of "data r"
        "\<lambda>key value. GetVerification d value \<noteq> None \<and> Code (the (GetVerification d value)) = x"
        ErrNotFound] this
    have "ErrIfNil (SyncMap_Find
        (\<lambda>key value. GetVerification d value \<noteq> None \<and> Code (the (GetVerification d value)) = x)
        (data r)) ErrNotFound = Inl ErrNotFound"
      by simp
    with nofault x show "FindByVerification d r x = Inl ErrNotFound"
      by (simp add: FindByVerification_def)
  qed
  have n6: "x \<noteq> '''' \<and>
      (\<forall>kv \<in> set (data r). \<forall>p. GetPasswordReset d (snd kv) = Some p \<longrightarrow> Token p \<noteq> x) \<longrightarrow>
      FindByPasswordResetRequest d r x = Inl ErrNotFound"
  proof (intro impI, elim conjE)
    assume x: "x \<noteq> ''''"
      and no: "\<forall>kv \<in> set (data r). \<forall>p. GetPasswordReset d (snd kv) = Some p \<longrightarrow> Token p \<noteq> x"
    have "\<forall>kv \<in> set (data r). \<not> (GetPasswordReset d (snd kv) \<noteq> None \<and>
        Token (the (GetPasswordReset d (snd kv))) = x)"
    proof
      fix kv assume kv: "kv \<in> set (data r)"
      show "\<not> (GetPasswordReset d (snd kv) \<noteq> None \<and>
          Token (the (GetPasswordReset d (snd kv))) = x)"
      proof (cases "GetPasswordReset d (snd kv)")
        case None
        then show ?thesis by simp
      next
        case (Some p)
        with no kv have "Token p \<noteq> x" by blast
        with Some show ?thesis by simp
      qed
    qed
    from lookup_no_match [of "data r"
        "\<lambda>key value. GetPasswordReset d value \<noteq> None \<and> Token (the (GetPasswordReset d value)) = x"
        ErrNotFound] this
    have "ErrIfNil (SyncMap_Find
        (\<lambda>key value. GetPasswordReset d value \<noteq> None \<and>
           Token (the (GetPasswordReset d value)) = x)
        (data r)) ErrNotFound = Inl ErrNotFound"
      by simp
    with nofault x show "FindByPasswordResetRequest d r x = Inl ErrNotFound"
      by (simp add: FindByPasswordResetRequest_def)
  qed
  show ?thesis
    by (intro conjI e1 e2 e3 e4 e5 e6 n1 n2 n3 n4 n5 n6)
qed

theorem lookups_reject_empty_and_report_NotFound_witness:
  "FindBySub demo_domain (NewUserWith demo_domain [alice]) '''' = Inl ErrInvalidParams \<and>
   FindBySub demo_domain (NewUserWith demo_domain [alice]) ''nobody'' = Inl ErrNotFound \<and>
   FindByEmail demo_domain (NewUserWith demo_domain [alice]) ''nobody'' = Inl ErrNotFound \<and>
   FindByName demo_domain (NewUserWith demo_domain [alice]) ''nobody'' = Inl ErrNotFound \<and>
   FindByNameOrEmail demo_domain (NewUserWith demo_domain [alice]) ''nobody'' =
     Inl ErrNotFound \<and>
   FindByVerification demo_domain (NewUserWith demo_domain [alice]) ''nobody'' =
     Inl ErrNotFound \<and>
   FindByPasswordResetRequest demo_domain (NewUserWith demo_domain [alice]) ''nobody'' =
     Inl ErrNotFound"
proof -
  let ?r = "NewUserWith demo_domain [alice]"
  let ?x = "''nobody''"
  have r: "?r = \<lparr>data = [(''u1'', alice)], err = None\<rparr>"
    by (simp add: NewUserWith_def NewUser_def SyncMap_Store_def demo_domain_def alice_def)
  have e: "err ?r = None"
    by (simp add: r)
  note t = lookups_reject_empty_and_report_NotFound [OF e, of demo_domain ?x]
  have h1: "?x \<noteq> '''' \<and>
      (\<forall>kv \<in> set (data ?r). \<not> ContainAuth demo_domain (snd kv) (AuthFrom demo_domain ?x))"
    unfolding r by (simp add: demo_domain_def alice_def)
  have h2: "?x \<noteq> '''' \<and> (\<forall>kv \<in> set (data ?r). Email demo_domain (snd kv) \<noteq> ?x)"
    unfolding r by (simp add: demo_domain_def alice_def)
  have h3: "?x \<noteq> '''' \<and> (\<forall>kv \<in> set (data ?r). Name demo_domain (snd kv) \<noteq> ?x)"
    unfolding r by (simp add: demo_domain_def alice_def)
  have h4: "?x \<noteq> '''' \<and>
      (\<forall>kv \<in> set (data ?r). Email demo_domain (snd kv) \<noteq> ?x \<and> Name demo_domain (snd kv) \<noteq> ?x)"
    unfolding r by (simp add: demo_domain_def alice_def)
  have h5: "?x \<noteq> '''' \<and>
      (\<forall>kv \<in> set (data ?r). \<forall>v. GetVerification demo_domain (snd kv) = Some v \<longrightarrow> Code v \<noteq> ?x)"
    unfolding r by (auto simp: demo_domain_def alice_def)
  have h6: "?x \<noteq> '''' \<and>
      (\<forall>kv \<in> set (data ?r). \<forall>p. GetPasswordReset demo_domain (snd kv) = Some p \<longrightarrow> Token p \<noteq> ?x)"
    unfolding r by (auto simp: demo_domain_def alice_def)
  from t have a0: "FindBySub demo_domain ?r '''' = Inl ErrInvalidParams" by blast
  from t h1 have a1: "FindBySub demo_domain ?r ?x = Inl ErrNotFound" by blast
  from t h2 have a2: "FindByEmail demo_domain ?r ?x = Inl ErrNotFound" by blast
  from t h3 have a3: "FindByName demo_domain ?r ?x = Inl ErrNotFound" by blast
  from t h4 have a4: "FindByNameOrEmail demo_domain ?r ?x = Inl ErrNotFound" by blast
  from t h5 have a5: "FindByVerification demo_domain ?r ?x = Inl ErrNotFound" by blast
  from t h6 have a6: "FindByPasswordResetRequest demo_domain ?r ?x = Inl ErrNotFound" by blast
  show ?thesis
    by (intro conjI a0 a1 a2 a3 a4 a5 a6)
qed

text \<open>
  C10. When no fault is injected, FindBySubOrCreate with the empty sub returns a user,
  never \<^verbatim>\<open>ErrInvalidParams\<close>; when no stored user contains the auth of the empty sub
  it stores the candidate and returns it. FindBySub returns \<^verbatim>\<open>ErrInvalidParams\<close> on
  the empty sub.
\<close>

theorem FindBySubOrCreate_accepts_empty_sub:
  assumes nofault: "err r = None"
  shows "(\<exists>v. fst (FindBySubOrCreate d r u '''') = Inr v) \<and>
         fst (FindBySubOrCreate d r u '''') \<noteq> Inl ErrInvalidParams \<and>
         ((\<forall>kv \<in> set (data r). \<not> ContainAuth d (snd kv) (AuthFrom d '''')) \<longrightarrow>
            FindBySubOrCreate d r u '''' =
              (Inr u, r\<lparr>data := SyncMap_Store (ID d u) u (data r)\<rparr>)) \<and>
         FindBySub d r '''' = Inl ErrInvalidParams"
proof -
  let ?f = "\<lambda>key value. ContainAuth d value (AuthFrom d '''')"
  have ok: "\<exists>v. fst (FindBySubOrCreate d r u '''') = Inr v"
    using nofault by (cases "SyncMap_Find ?f (data r)") (simp_all add: FindBySubOrCreate_def)
  then have no: "fst (FindBySubOrCreate d r u '''') \<noteq> Inl ErrInvalidParams"
    by auto
  have create: "(\<forall>kv \<in> set (data r). \<not> ContainAuth d (snd kv) (AuthFrom d '''')) \<longrightarrow>
      FindBySubOrCreate d r u '''' = (Inr u, r\<lparr>data := SyncMap_Store (ID d u) u (data r)\<rparr>)"
  proof
    assume "\<forall>kv \<in> set (data r). \<not> ContainAuth d (snd kv) (AuthFrom d '''')"
    then have "SyncMap_Find ?f (data r) = None"
      by (simp add: SyncMap_Find_None_iff)
    with nofault show "FindBySubOrCreate d r u '''' =
        (Inr u, r\<lparr>data := SyncMap_Store (ID d u) u (data r)\<rparr>)"
      by (simp add: FindBySubOrCreate_def)
  qed
  have sub: "FindBySub d r '''' = Inl ErrInvalidParams"
    using nofault by (simp add: FindBySub_def)
  show ?thesis
    by (intro conjI ok no create sub)
qed

theorem FindBySubOrCreate_accepts_empty_sub_witness:
  "FindBySubOrCreate demo_domain (NewUserWith demo_domain [alice]) carol '''' =
     (Inr carol, NewUserWith demo_domain [alice, carol]) \<and>
   FindBySub demo_domain (NewUserWith demo_domain [alice]) '''' = Inl ErrInvalidParams"
proof -
  let ?r = "NewUserWith demo_domain [alice]"
  have r: "?r = \<lparr>data = [(''u1'', alice)], err = None\<rparr>"
    by (simp add: NewUserWith_def NewUser_def SyncMap_Store_def demo_domain_def alice_def)
  have r': "NewUserWith demo_domain [alice, carol] =
      ?r\<lparr>data := SyncMap_Store (ID demo_domain carol) carol (data ?r)\<rparr>"
    by (simp add: NewUserWith_def)
  have e: "err ?r = None"
    by (simp add: r)
  have h: "\<forall>kv \<in> set (data ?r).
      \<not> ContainAuth demo_domain (snd kv) (AuthFrom demo_domain '''')"
    unfolding r by (simp add: demo_domain_def alice_def)
  note t = FindBySubOrCreate_accepts_empty_sub [OF e, of demo_domain carol]
  from t h have a: "FindBySubOrCreate demo_domain ?r carol '''' =
      (Inr carol, ?r\<lparr>data := SyncMap_Store (ID demo_domain carol) carol (data ?r)\<rparr>)"
    by blast
  from t have b: "FindBySub demo_domain ?r '''' = Inl ErrInvalidParams"
    by blast
  from a b show ?thesis
    unfolding r' by blast
qed

section \<open>Properties of Pagination\<close>

lemma CloneRef_valid:
  "valid_ptr cells r \<Longrightarrow>
     CloneRef cells r =
       Some (map_option (\<lambda>a. length cells) r,
             cells @ (case r of None \<Rightarrow> [] | Some a \<Rightarrow> [cells ! a]))"
  by (cases r) (simp_all add: CloneRef_def valid_ptr_def)

lemma copy_cell_valid:
  "valid_ptr cells r \<Longrightarrow>
     copy_cell cells r =
       (map_option (\<lambda>a. length cells) r,
        cells @ (case r of None \<Rightarrow> [] | Some a \<Rightarrow> [cells ! a]))"
  by (cases r) (simp_all add: copy_cell_def valid_ptr_def)

lemma valid_ptr_append:
  "valid_ptr cells r \<Longrightarrow> valid_ptr (cells @ ys) r"
  by (cases r) (simp_all add: valid_ptr_def)

lemma Clone_nil_Cursor:
  assumes a: "a < length (paginations h)"
    and c: "Cursor (paginations h ! a) = None"
    and vo: "valid_ptr (offsetPaginations h) (Offset (paginations h ! a))"
  shows "Clone h (Some a) =
     Some (Some (length (paginations h)),
       h\<lparr>paginations :=
           paginations h @
             [\<lparr>Cursor = None,
               Offset = map_option (\<lambda>c. length (offsetPaginations h)) (Offset (paginations h ! a))\<rparr>],
         offsetPaginations :=
           offsetPaginations h @
             (case Offset (paginations h ! a) of None \<Rightarrow> [] | Some c \<Rightarrow> [offsetPaginations h ! c])\<rparr>)"
  using a c by (simp add: Clone_def CloneRef_CursorPagination_def CloneRef_valid [OF vo])

lemma Clone_set_Cursor:
  assumes a: "a < length (paginations h)"
    and c: "Cursor (paginations h ! a) = Some c" "c < length (cursorPaginations h)"
    and vo: "valid_ptr (offsetPaginations h) (Offset (paginations h ! a))"
    and vb: "valid_ptr (cursors h) (Before (cursorPaginations h ! c))"
    and va: "valid_ptr (cursors h) (After (cursorPaginations h ! c))"
    and vf: "valid_ptr (int64s h) (First (cursorPaginations h ! c))"
    and vl: "valid_ptr (int64s h) (Last (cursorPaginations h ! c))"
    and cs1: "cs1 = cursors h @
        (case Before (cursorPaginations h ! c) of None \<Rightarrow> [] | Some i \<Rightarrow> [cursors h ! i])"
    and is1: "is1 = int64s h @
        (case First (cursorPaginations h ! c) of None \<Rightarrow> [] | Some i \<Rightarrow> [int64s h ! i])"
  shows "Clone h (Some a) =
     Some (Some (length (paginations h)),
       h\<lparr>cursorPaginations :=
           cursorPaginations h @
             [\<lparr>Before = map_option (\<lambda>i. length (cursors h)) (Before (cursorPaginations h ! c)),
               After = map_option (\<lambda>i. length cs1) (After (cursorPaginations h ! c)),
               First = map_option (\<lambda>i. length (int64s h)) (First (cursorPaginations h ! c)),
               Last = map_option (\<lambda>i. length is1) (Last (cursorPaginations h ! c))\<rparr>],
         cursors :=
           cs1 @ (case After (cursorPaginations h ! c) of None \<Rightarrow> [] | Some i \<Rightarrow> [cs1 ! i]),
         int64s :=
           is1 @ (case Last (cursorPaginations h ! c) of None \<Rightarrow> [] | Some i \<Rightarrow> [is1 ! i]),
         paginations :=
           paginations h @
             [\<lparr>Cursor = Some (length (cursorPaginations h)),
               Offset = map_option (\<lambda>c. length (offsetPaginations h)) (Offset (paginations h ! a))\<rparr>],
         offsetPaginations :=
           offsetPaginations h @
             (case Offset (paginations h ! a) of None \<Rightarrow> [] | Some c \<Rightarrow> [offsetPaginations h ! c])\<rparr>)"
proof -
  from va have va': "valid_ptr cs1 (After (cursorPaginations h ! c))"
    unfolding cs1 by (rule valid_ptr_append)
  from vl have vl': "valid_ptr is1 (Last (cursorPaginations h ! c))"
    unfolding is1 by (rule valid_ptr_append)
  have b: "copy_cell (cursors h) (Before (cursorPaginations h ! c)) =
      (map_option (\<lambda>i. length (cursors h)) (Before (cursorPaginations h ! c)), cs1)"
    unfolding cs1 by (rule copy_cell_valid [OF vb])
  have f: "copy_cell (int64s h) (First (cursorPaginations h ! c)) =
      (map_option (\<lambda>i. length (int64s h)) (First (cursorPaginations h ! c)), is1)"
    unfolding is1 by (rule copy_cell_valid [OF vf])
  show ?thesis
    using a c
    by (simp add: Clone_def CloneRef_CursorPagination_def Let_def CloneRef_valid [OF vo]
        b f copy_cell_valid [OF va'] copy_cell_valid [OF vl'])
qed


lemma Clone_deep_views:
  assumes v: "valid_Pagination h a"
    and cl: "Clone h (Some a) = Some (Some n, h')"
  shows "n = length (paginations h)"
    and "deep_view h' (Some n) = deep_view h (Some a)"
    and "deep_view h' (Some a) = deep_view h (Some a)"
    and "deep_view (assign_Cursor h' n v) (Some a) = deep_view h (Some a)"
    and "deep_view (assign_Offset h' n w) (Some a) = deep_view h (Some a)"
    and "deep_view (assign_Pagination h' n pg) (Some a) = deep_view h (Some a)"
    and "deep_view (write_cursor h' (field_of_Cursor h' n Before) x) (Some a) = deep_view h (Some a)"
    and "deep_view (write_cursor h' (field_of_Cursor h' n After) x) (Some a) = deep_view h (Some a)"
    and "deep_view (write_int64 h' (field_of_Cursor h' n First) y) (Some a) = deep_view h (Some a)"
    and "deep_view (write_int64 h' (field_of_Cursor h' n Last) y) (Some a) = deep_view h (Some a)"
    and "deep_view (assign_Cursor h' a v) (Some n) = deep_view h' (Some n)"
    and "deep_view (assign_Offset h' a w) (Some n) = deep_view h' (Some n)"
    and "deep_view (assign_Pagination h' a pg) (Some n) = deep_view h' (Some n)"
    and "deep_view (write_cursor h' (field_of_Cursor h' a Before) x) (Some n) = deep_view h' (Some n)"
    and "deep_view (write_cursor h' (field_of_Cursor h' a After) x) (Some n) = deep_view h' (Some n)"
    and "deep_view (write_int64 h' (field_of_Cursor h' a First) y) (Some n) = deep_view h' (Some n)"
    and "deep_view (write_int64 h' (field_of_Cursor h' a Last) y) (Some n) = deep_view h' (Some n)"
proof -
  from v have a: "a < length (paginations h)"
    and vo: "valid_ptr (offsetPaginations h) (Offset (paginations h ! a))"
    by (simp_all add: valid_Pagination_def)
  have all: "(n = length (paginations h)) \<and>
      (deep_view h' (Some n) = deep_view h (Some a)) \<and>
      (deep_view h' (Some a) = deep_view h (Some a)) \<and>
      (deep_view (assign_Cursor h' n v) (Some a) = deep_view h (Some a)) \<and>
      (deep_view (assign_Offset h' n w) (Some a) = deep_view h (Some a)) \<and>
      (deep_view (assign_Pagination h' n pg) (Some a) = deep_view h (Some a)) \<and>
      (deep_view (write_cursor h' (field_of_Cursor h' n Before) x) (Some a) = deep_view h (Some a)) \<and>
      (deep_view (write_cursor h' (field_of_Cursor h' n After) x) (Some a) = deep_view h (Some a)) \<and>
      (deep_view (write_int64 h' (field_of_Cursor h' n First) y) (Some a) = deep_view h (Some a)) \<and>
      (deep_view (write_int64 h' (field_of_Cursor h' n Last) y) (Some a) = deep_view h (Some a)) \<and>
      (deep_view (assign_Cursor h' a v) (Some n) = deep_view h' (Some n)) \<and>
      (deep_view (assign_Offset h' a w) (Some n) = deep_view h' (Some n)) \<and>
      (deep_view (assign_Pagination h' a pg) (Some n) = deep_view h' (Some n)) \<and>
      (deep_view (write_cursor h' (field_of_Cursor h' a Before) x) (Some n) = deep_view h' (Some n)) \<and>
      (deep_view (write_cursor h' (field_of_Cursor h' a After) x) (Some n) = deep_view h' (Some n)) \<and>
      (deep_view (write_int64 h' (field_of_Cursor h' a First) y) (Some n) = deep_view h' (Some n)) \<and>
      (deep_view (write_int64 h' (field_of_Cursor h' a Last) y) (Some n) = deep_view h' (Some n))"
  proof (cases "Cursor (paginations h ! a)")
    case None
    from cl Clone_nil_Cursor [OF a None vo] have n: "n = length (paginations h)"
      and h': "h' = h\<lparr>paginations :=
           paginations h @
             [\<lparr>Cursor = None,
               Offset = map_option (\<lambda>c. length (offsetPaginations h)) (Offset (paginations h ! a))\<rparr>],
         offsetPaginations :=
           offsetPaginations h @
             (case Offset (paginations h ! a) of None \<Rightarrow> [] | Some c \<Rightarrow> [offsetPaginations h ! c])\<rparr>"
      by simp_all
    show ?thesis
      using a vo None unfolding n h'
      by (cases "Offset (paginations h ! a)")
         (simp_all add: deep_view_def deep_Cursor_def deref_def valid_ptr_def nth_append assign_Cursor_def assign_Offset_def assign_Pagination_def write_cursor_def write_int64_def field_of_Cursor_def)
  next
    case (Some c)
    with v have c: "c < length (cursorPaginations h)"
      and vb: "valid_ptr (cursors h) (Before (cursorPaginations h ! c))"
      and va: "valid_ptr (cursors h) (After (cursorPaginations h ! c))"
      and vf: "valid_ptr (int64s h) (First (cursorPaginations h ! c))"
      and vl: "valid_ptr (int64s h) (Last (cursorPaginations h ! c))"
      by (simp_all add: valid_Pagination_def valid_CursorPagination_def valid_ptr_def)
    from cl Clone_set_Cursor [OF a Some c vo vb va vf vl refl refl]
    have n: "n = length (paginations h)"
      and h': "h' = h\<lparr>cursorPaginations :=
           cursorPaginations h @
             [\<lparr>Before = map_option (\<lambda>i. length (cursors h)) (Before (cursorPaginations h ! c)),
               After = map_option (\<lambda>i. length (cursors h @
                  (case Before (cursorPaginations h ! c) of None \<Rightarrow> [] | Some i \<Rightarrow> [cursors h ! i])))
                  (After (cursorPaginations h ! c)),
               First = map_option (\<lambda>i. length (int64s h)) (First (cursorPaginations h ! c)),
               Last = map_option (\<lambda>i. length (int64s h @
                  (case First (cursorPaginations h ! c) of None \<Rightarrow> [] | Some i \<Rightarrow> [int64s h ! i])))
                  (Last (cursorPaginations h ! c))\<rparr>],
         cursors :=
           (cursors h @
             (case Before (cursorPaginations h ! c) of None \<Rightarrow> [] | Some i \<Rightarrow> [cursors h ! i])) @
           (case After (cursorPaginations h ! c) of None \<Rightarrow> []
            | Some i \<Rightarrow> [(cursors h @
                (case Before (cursorPaginations h ! c) of None \<Rightarrow> [] | Some i \<Rightarrow> [cursors h ! i])) ! i]),
         int64s :=
           (int64s h @
             (case First (cursorPaginations h ! c) of None \<Rightarrow> [] | Some i \<Rightarrow> [int64s h ! i])) @
           (case Last (cursorPaginations h ! c) of None \<Rightarrow> []
            | Some i \<Rightarrow> [(int64s h @
                (case First (cursorPaginations h ! c) of None \<Rightarrow> [] | Some i \<Rightarrow> [int64s h ! i])) ! i]),
         paginations :=
           paginations h @
             [\<lparr>Cursor = Some (length (cursorPaginations h)),
               Offset = map_option (\<lambda>c. length (offsetPaginations h)) (Offset (paginations h ! a))\<rparr>],
         offsetPaginations :=
           offsetPaginations h @
             (case Offset (paginations h ! a) of None \<Rightarrow> [] | Some c \<Rightarrow> [offsetPaginations h ! c])\<rparr>"
      by simp_all
    show ?thesis
      using a vo Some c vb va vf vl unfolding n h'
      by (cases "Offset (paginations h ! a)";
          cases "Before (cursorPaginations h ! c)"; cases "After (cursorPaginations h ! c)";
          cases "First (cursorPaginations h ! c)"; cases "Last (cursorPaginations h ! c)")
         (simp_all add: deep_view_def deep_Cursor_def deref_def valid_ptr_def nth_append assign_Cursor_def assign_Offset_def assign_Pagination_def write_cursor_def write_int64_def field_of_Cursor_def)
  qed
  from all show "n = length (paginations h)" by blast
  from all show "deep_view h' (Some n) = deep_view h (Some a)" by blast
  from all show "deep_view h' (Some a) = deep_view h (Some a)" by blast
  from all show "deep_view (assign_Cursor h' n v) (Some a) = deep_view h (Some a)" by blast
  from all show "deep_view (assign_Offset h' n w) (Some a) = deep_view h (Some a)" by blast
  from all show "deep_view (assign_Pagination h' n pg) (Some a) = deep_view h (Some a)" by blast
  from all show "deep_view (write_cursor h' (field_of_Cursor h' n Before) x) (Some a) = deep_view h (Some a)" by blast
  from all show "deep_view (write_cursor h' (field_of_Cursor h' n After) x) (Some a) = deep_view h (Some a)" by blast
  from all show "deep_view (write_int64 h' (field_of_Cursor h' n First) y) (Some a) = deep_view h (Some a)" by blast
  from all show "deep_view (write_int64 h' (field_of_Cursor h' n Last) y) (Some a) = deep_view h (Some a)" by blast
  from all show "deep_view (assign_Cursor h' a v) (Some n) = deep_view h' (Some n)" by blast
  from all show "deep_view (assign_Offset h' a w) (Some n) = deep_view h' (Some n)" by blast
  from all show "deep_view (assign_Pagination h' a pg) (Some n) = deep_view h' (Some n)" by blast
  from all show "deep_view (write_cursor h' (field_of_Cursor h' a Before) x) (Some n) = deep_view h' (Some n)" by blast
  from all show "deep_view (write_cursor h' (field_of_Cursor h' a After) x) (Some n) = deep_view h' (Some n)" by blast
  from all show "deep_view (write_int64 h' (field_of_Cursor h' a First) y) (Some n) = deep_view h' (Some n)" by blast
  from all show "deep_view (write_int64 h' (field_of_Cursor h' a Last) y) (Some n) = deep_view h' (Some n)" by blast
qed


lemma Clone_valid:
  assumes a: "a < length (paginations h)"
    and vc: "valid_ptr (cursorPaginations h) (Cursor (paginations h ! a))"
    and vo: "valid_ptr (offsetPaginations h) (Offset (paginations h ! a))"
  shows "\<exists>h'. Clone h (Some a) = Some (Some (length (paginations h)), h') \<and>
     paginations h' =
       paginations h @
         [\<lparr>Cursor = map_option (\<lambda>c. length (cursorPaginations h)) (Cursor (paginations h ! a)),
           Offset = map_option (\<lambda>c. length (offsetPaginations h)) (Offset (paginations h ! a))\<rparr>]"
proof (cases "Cursor (paginations h ! a)")
  case None
  with a show ?thesis
    by (simp add: Clone_def CloneRef_CursorPagination_def CloneRef_valid [OF vo])
next
  case (Some c)
  with vc have "c < length (cursorPaginations h)"
    by (simp add: valid_ptr_def)
  with a Some show ?thesis
    by (simp add: Clone_def CloneRef_CursorPagination_def Let_def CloneRef_valid [OF vo])
qed

text \<open>
  C8. Clone of the nil pointer is nil. For a pointer \<open>a\<close> to a Pagination in which
  every pointer is nil or points to a cell, Clone returns a pointer \<open>n\<close> to a new
  Pagination, other than \<open>a\<close>, from which the same descriptors, cursors and counts are
  reached as from \<open>a\<close>, and \<open>a\<close> still reaches what it reached. No change made through
  the clone changes anything reached from \<open>a\<close>: assigning the fields of the clone's
  cursor descriptor, of its offset descriptor or of the clone itself, or writing the
  cursor behind its \<^verbatim>\<open>Before\<close> or \<^verbatim>\<open>After\<close> or the count behind its \<^verbatim>\<open>First\<close> or
  \<^verbatim>\<open>Last\<close>. The same changes made through \<open>a\<close> change nothing reached from the
  clone.
\<close>

theorem Clone_independent_copy:
  "Clone h None = Some (None, h) \<and>
   (valid_Pagination h a \<longrightarrow>
      (\<exists>n h'. Clone h (Some a) = Some (Some n, h') \<and>
            n \<noteq> a \<and>
            deep_view h' (Some n) = deep_view h (Some a) \<and>
            deep_view h' (Some a) = deep_view h (Some a) \<and>
            (\<forall>v. deep_view (assign_Cursor h' n v) (Some a) = deep_view h (Some a)) \<and>
            (\<forall>w. deep_view (assign_Offset h' n w) (Some a) = deep_view h (Some a)) \<and>
            (\<forall>pg. deep_view (assign_Pagination h' n pg) (Some a) = deep_view h (Some a)) \<and>
            (\<forall>x. deep_view (write_cursor h' (field_of_Cursor h' n Before) x) (Some a) = deep_view h (Some a)) \<and>
            (\<forall>x. deep_view (write_cursor h' (field_of_Cursor h' n After) x) (Some a) = deep_view h (Some a)) \<and>
            (\<forall>y. deep_view (write_int64 h' (field_of_Cursor h' n First) y) (Some a) = deep_view h (Some a)) \<and>
            (\<forall>y. deep_view (write_int64 h' (field_of_Cursor h' n Last) y) (Some a) = deep_view h (Some a)) \<and>
            (\<forall>v. deep_view (assign_Cursor h' a v) (Some n) = deep_view h' (Some n)) \<and>
            (\<forall>w. deep_view (assign_Offset h' a w) (Some n) = deep_view h' (Some n)) \<and>
            (\<forall>pg. deep_view (assign_Pagination h' a pg) (Some n) = deep_view h' (Some n)) \<and>
            (\<forall>x. deep_view (write_cursor h' (field_of_Cursor h' a Before) x) (Some n) = deep_view h' (Some n)) \<and>
            (\<forall>x. deep_view (write_cursor h' (field_of_Cursor h' a After) x) (Some n) = deep_view h' (Some n)) \<and>
            (\<forall>y. deep_view (write_int64 h' (field_of_Cursor h' a First) y) (Some n) = deep_view h' (Some n)) \<and>
            (\<forall>y. deep_view (write_int64 h' (field_of_Cursor h' a Last) y) (Some n) = deep_view h' (Some n))))"
proof -
  have nil: "Clone h None = Some (None, h)"
    by (simp add: Clone_def)
  have copy: "valid_Pagination h a \<longrightarrow>
      (\<exists>n h'. Clone h (Some a) = Some (Some n, h') \<and>
            n \<noteq> a \<and>
            deep_view h' (Some n) = deep_view h (Some a) \<and>
            deep_view h' (Some a) = deep_view h (Some a) \<and>
            (\<forall>v. deep_view (assign_Cursor h' n v) (Some a) = deep_view h (Some a)) \<and>
            (\<forall>w. deep_view (assign_Offset h' n w) (Some a) = deep_view h (Some a)) \<and>
            (\<forall>pg. deep_view (assign_Pagination h' n pg) (Some a) = deep_view h (Some a)) \<and>
            (\<forall>x. deep_view (write_cursor h' (field_of_Cursor h' n Before) x) (Some a) = deep_view h (Some a)) \<and>
            (\<forall>x. deep_view (write_cursor h' (field_of_Cursor h' n After) x) (Some a) = deep_view h (Some a)) \<and>
            (\<forall>y. deep_view (write_int64 h' (field_of_Cursor h' n First) y) (Some a) = deep_view h (Some a)) \<and>
            (\<forall>y. deep_view (write_int64 h' (field_of_Cursor h' n Last) y) (Some a) = deep_view h (Some a)) \<and>
            (\<forall>v. deep_view (assign_Cursor h' a v) (Some n) = deep_view h' (Some n)) \<and>
            (\<forall>w. deep_view (assign_Offset h' a w) (Some n) = deep_view h' (Some n)) \<and>
            (\<forall>pg. deep_view (assign_Pagination h' a pg) (Some n) = deep_view h' (Some n)) \<and>
            (\<forall>x. deep_view (write_cursor h' (field_of_Cursor h' a Before) x) (Some n) = deep_view h' (Some n)) \<and>
            (\<forall>x. deep_view (write_cursor h' (field_of_Cursor h' a After) x) (Some n) = deep_view h' (Some n)) \<and>
            (\<forall>y. deep_view (write_int64 h' (field_of_Cursor h' a First) y) (Some n) = deep_view h' (Some n)) \<and>
            (\<forall>y. deep_view (write_int64 h' (field_of_Cursor h' a Last) y) (Some n) = deep_view h' (Some n)))"
  proof
    assume v: "valid_Pagination h a"
    then have a: "a < length (paginations h)"
      and vc: "valid_ptr (cursorPaginations h) (Cursor (paginations h ! a))"
      and vo: "valid_ptr (offsetPaginations h) (Offset (paginations h ! a))"
      by (simp_all add: valid_Pagination_def)
    from Clone_valid [OF a vc vo] obtain n h' where cl: "Clone h (Some a) = Some (Some n, h')"
      by blast
    note d = Clone_deep_views [OF v cl]
    from d(1) a have ne: "n \<noteq> a" by simp
    have "Clone h (Some a) = Some (Some n, h') \<and>
            n \<noteq> a \<and>
            deep_view h' (Some n) = deep_view h (Some a) \<and>
            deep_view h' (Some a) = deep_view h (Some a) \<and>
            (\<forall>v. deep_view (assign_Cursor h' n v) (Some a) = deep_view h (Some a)) \<and>
            (\<forall>w. deep_view (assign_Offset h' n w) (Some a) = deep_view h (Some a)) \<and>
            (\<forall>pg. deep_view (assign_Pagination h' n pg) (Some a) = deep_view h (Some a)) \<and>
            (\<forall>x. deep_view (write_cursor h' (field_of_Cursor h' n Before) x) (Some a) = deep_view h (Some a)) \<and>
            (\<forall>x. deep_view (write_cursor h' (field_of_Cursor h' n After) x) (Some a) = deep_view h (Some a)) \<and>
            (\<forall>y. deep_view (write_int64 h' (field_of_Cursor h' n First) y) (Some a) = deep_view h (Some a)) \<and>
            (\<forall>y. deep_view (write_int64 h' (field_of_Cursor h' n Last) y) (Some a) = deep_view h (Some a)) \<and>
            (\<forall>v. deep_view (assign_Cursor h' a v) (Some n) = deep_view h' (Some n)) \<and>
            (\<forall>w. deep_view (assign_Offset h' a w) (Some n) = deep_view h' (Some n)) \<and>
            (\<forall>pg. deep_view (assign_Pagination h' a pg) (Some n) = deep_view h' (Some n)) \<and>
            (\<forall>x. deep_view (write_cursor h' (field_of_Cursor h' a Before) x) (Some n) = deep_view h' (Some n)) \<and>
            (\<forall>x. deep_view (write_cursor h' (field_of_Cursor h' a After) x) (Some n) = deep_view h' (Some n)) \<and>
            (\<forall>y. deep_view (write_int64 h' (field_of_Cursor h' a First) y) (Some n) = deep_view h' (Some n)) \<and>
            (\<forall>y. deep_view (write_int64 h' (field_of_Cursor h' a Last) y) (Some n) = deep_view h' (Some n))"
      by (intro conjI allI cl ne d)
    then show "\<exists>n h'. Clone h (Some a) = Some (Some n, h') \<and>
            n \<noteq> a \<and>
            deep_view h' (Some n) = deep_view h (Some a) \<and>
            deep_view h' (Some a) = deep_view h (Some a) \<and>
            (\<forall>v. deep_view (assign_Cursor h' n v) (Some a) = deep_view h (Some a)) \<and>
            (\<forall>w. deep_view (assign_Offset h' n w) (Some a) = deep_view h (Some a)) \<and>
            (\<forall>pg. deep_view (assign_Pagination h' n pg) (Some a) = deep_view h (Some a)) \<and>
            (\<forall>x. deep_view (write_cursor h' (field_of_Cursor h' n Before) x) (Some a) = deep_view h (Some a)) \<and>
            (\<forall>x. deep_view (write_cursor h' (field_of_Cursor h' n After) x) (Some a) = deep_view h (Some a)) \<and>
            (\<forall>y. deep_view (write_int64 h' (field_of_Cursor h' n First) y) (Some a) = deep_view h (Some a)) \<and>
            (\<forall>y. deep_view (write_int64 h' (field_of_Cursor h' n Last) y) (Some a) = deep_view h (Some a)) \<and>
            (\<forall>v. deep_view (assign_Cursor h' a v) (Some n) = deep_view h' (Some n)) \<and>
            (\<forall>w. deep_view (assign_Offset h' a w) (Some n) = deep_view h' (Some n)) \<and>
            (\<forall>pg. deep_view (assign_Pagination h' a pg) (Some n) = deep_view h' (Some n)) \<and>
            (\<forall>x. deep_view (write_cursor h' (field_of_Cursor h' a Before) x) (Some n) = deep_view h' (Some n)) \<and>
            (\<forall>x. deep_view (write_cursor h' (field_of_Cursor h' a After) x) (Some n) = deep_view h' (Some n)) \<and>
            (\<forall>y. deep_view (write_int64 h' (field_of_Cursor h' a First) y) (Some n) = deep_view h' (Some n)) \<and>
            (\<forall>y. deep_view (write_int64 h' (field_of_Cursor h' a Last) y) (Some n) = deep_view h' (Some n))"
      by blast
  qed
  show ?thesis
    by (intro conjI nil copy)
qed

theorem Clone_independent_copy_witness:
  "Clone one_cursor_heap (Some 0) =
     Some (Some 1,
       \<lparr>paginations = [\<lparr>Cursor = Some 0, Offset = None\<rparr>, \<lparr>Cursor = Some 1, Offset = None\<rparr>],
        cursorPaginations =
          [\<lparr>Before = None, After = Some 0, First = Some 1, Last = None\<rparr>,
           \<lparr>Before = None, After = Some 1, First = Some 2, Last = None\<rparr>],
        offsetPaginations = [], cursors = [''id-7'', ''id-7''], int64s = [5, 10, 10]\<rparr>) \<and>
   deep_view one_cursor_heap (Some 0) = Some (Some (None, Some ''id-7'', Some 10, None), None) \<and>
   deep_view
     (write_int64 (snd (the (Clone one_cursor_heap (Some 0))))
        (field_of_Cursor (snd (the (Clone one_cursor_heap (Some 0)))) 1 First) 99)
     (Some 0) = Some (Some (None, Some ''id-7'', Some 10, None), None) \<and>
   deep_view
     (write_int64 (snd (the (Clone one_cursor_heap (Some 0))))
        (field_of_Cursor (snd (the (Clone one_cursor_heap (Some 0)))) 1 First) 99)
     (Some 1) = Some (Some (None, Some ''id-7'', Some 99, None), None) \<and>
   deep_view
     (write_cursor (snd (the (Clone one_cursor_heap (Some 0))))
        (field_of_Cursor (snd (the (Clone one_cursor_heap (Some 0)))) 0 After) ''id-9'')
     (Some 1) = Some (Some (None, Some ''id-7'', Some 10, None), None)"
proof -
  let ?h = one_cursor_heap
  let ?h2 = "\<lparr>paginations = [\<lparr>Cursor = Some 0, Offset = None\<rparr>, \<lparr>Cursor = Some 1, Offset = None\<rparr>],
        cursorPaginations =
          [\<lparr>Before = None, After = Some 0, First = Some 1, Last = None\<rparr>,
           \<lparr>Before = None, After = Some 1, First = Some 2, Last = None\<rparr>],
        offsetPaginations = [], cursors = [''id-7'', ''id-7''], int64s = [5, 10, 10]\<rparr>"
  have h: "?h = \<lparr>paginations = [\<lparr>Cursor = Some 0, Offset = None\<rparr>],
      cursorPaginations = [\<lparr>Before = None, After = Some 0, First = Some 1, Last = None\<rparr>],
      offsetPaginations = [], cursors = [''id-7''], int64s = [5, 10]\<rparr>"
    by (simp add: one_cursor_heap_def CursorPagination_Wrap_def empty_heap_def first_ten_def)
  have run: "Clone ?h (Some 0) = Some (Some 1, ?h2)"
    unfolding h
    by (simp add: Clone_def CloneRef_def CloneRef_CursorPagination_def copy_cell_def Let_def)
  have valid: "valid_Pagination ?h 0"
    unfolding h by (simp add: valid_Pagination_def valid_CursorPagination_def valid_ptr_def)
  have before: "deep_view ?h (Some 0) = Some (Some (None, Some ''id-7'', Some 10, None), None)"
    unfolding h by (simp add: deep_view_def deep_Cursor_def deref_def)
  from Clone_independent_copy [of ?h 0] valid obtain n h'
    where cl: "Clone ?h (Some 0) = Some (Some n, h')"
      and src: "\<forall>y. deep_view (write_int64 h' (field_of_Cursor h' n First) y) (Some 0) =
        deep_view ?h (Some 0)"
      and same: "deep_view h' (Some n) = deep_view ?h (Some 0)"
      and cln: "\<forall>x. deep_view (write_cursor h' (field_of_Cursor h' 0 After) x) (Some n) =
        deep_view h' (Some n)"
    by blast
  from cl [symmetric] run have eq: "Some (Some n, h') = Some (Some 1, ?h2)"
    by (rule trans)
  from eq have n: "n = 1" by simp
  from eq have h': "h' = ?h2" by simp
  from src before
  have w1: "deep_view (write_int64 ?h2 (field_of_Cursor ?h2 1 First) 99) (Some 0) =
      Some (Some (None, Some ''id-7'', Some 10, None), None)"
    unfolding n h' by simp
  have w2: "deep_view (write_int64 ?h2 (field_of_Cursor ?h2 1 First) 99) (Some 1) =
      Some (Some (None, Some ''id-7'', Some 99, None), None)"
    by (simp add: write_int64_def field_of_Cursor_def deep_view_def deep_Cursor_def deref_def)
  from cln same before
  have w3: "deep_view (write_cursor ?h2 (field_of_Cursor ?h2 0 After) ''id-9'') (Some 1) =
      Some (Some (None, Some ''id-7'', Some 10, None), None)"
    unfolding n h' by simp
  from run before w1 w2 w3 show ?thesis
    by simp
qed

text \<open>
  C9. The Pagination made by \<^verbatim>\<open>CursorPagination.Wrap\<close> has its \<^verbatim>\<open>Cursor\<close> set, to a
  cell holding the descriptor, and its \<^verbatim>\<open>Offset\<close> nil; the one made by
  \<^verbatim>\<open>OffsetPagination.Wrap\<close> has its \<^verbatim>\<open>Offset\<close> set and its \<^verbatim>\<open>Cursor\<close> nil. In the
  clone of a Pagination, \<^verbatim>\<open>Cursor\<close> is nil exactly when it is nil in the source, and so
  is \<^verbatim>\<open>Offset\<close>: when the source has at most one of them set, so has the clone.
\<close>

theorem Wrap_sets_one_descriptor_Clone_keeps_it:
  "view (snd (CursorPagination_Wrap h cp)) (fst (CursorPagination_Wrap h cp)) =
     Some (Some cp, None) \<and>
   deref (paginations (snd (CursorPagination_Wrap h cp))) (fst (CursorPagination_Wrap h cp)) =
     Some \<lparr>Cursor = Some (length (cursorPaginations h)), Offset = None\<rparr> \<and>
   view (snd (OffsetPagination_Wrap h op)) (fst (OffsetPagination_Wrap h op)) =
     Some (None, Some op) \<and>
   deref (paginations (snd (OffsetPagination_Wrap h op))) (fst (OffsetPagination_Wrap h op)) =
     Some \<lparr>Cursor = None, Offset = Some (length (offsetPaginations h))\<rparr> \<and>
   (a < length (paginations h) \<and>
    valid_ptr (cursorPaginations h) (Cursor (paginations h ! a)) \<and>
    valid_ptr (offsetPaginations h) (Offset (paginations h ! a)) \<longrightarrow>
    (\<exists>n h' pg'. Clone h (Some a) = Some (Some n, h') \<and>
       deref (paginations h') (Some n) = Some pg' \<and>
       (Cursor pg' = None \<longleftrightarrow> Cursor (paginations h ! a) = None) \<and>
       (Offset pg' = None \<longleftrightarrow> Offset (paginations h ! a) = None) \<and>
       (Cursor (paginations h ! a) = None \<or> Offset (paginations h ! a) = None \<longrightarrow>
          Cursor pg' = None \<or> Offset pg' = None)))"
proof -
  have w1: "view (snd (CursorPagination_Wrap h cp)) (fst (CursorPagination_Wrap h cp)) =
      Some (Some cp, None)"
    by (simp add: CursorPagination_Wrap_def view_def deref_def)
  have w2: "deref (paginations (snd (CursorPagination_Wrap h cp)))
      (fst (CursorPagination_Wrap h cp)) =
      Some \<lparr>Cursor = Some (length (cursorPaginations h)), Offset = None\<rparr>"
    by (simp add: CursorPagination_Wrap_def deref_def)
  have w3: "view (snd (OffsetPagination_Wrap h op)) (fst (OffsetPagination_Wrap h op)) =
      Some (None, Some op)"
    by (simp add: OffsetPagination_Wrap_def view_def deref_def)
  have w4: "deref (paginations (snd (OffsetPagination_Wrap h op)))
      (fst (OffsetPagination_Wrap h op)) =
      Some \<lparr>Cursor = None, Offset = Some (length (offsetPaginations h))\<rparr>"
    by (simp add: OffsetPagination_Wrap_def deref_def)
  have w5: "a < length (paginations h) \<and>
    valid_ptr (cursorPaginations h) (Cursor (paginations h ! a)) \<and>
    valid_ptr (offsetPaginations h) (Offset (paginations h ! a)) \<longrightarrow>
    (\<exists>n h' pg'. Clone h (Some a) = Some (Some n, h') \<and>
       deref (paginations h') (Some n) = Some pg' \<and>
       (Cursor pg' = None \<longleftrightarrow> Cursor (paginations h ! a) = None) \<and>
       (Offset pg' = None \<longleftrightarrow> Offset (paginations h ! a) = None) \<and>
       (Cursor (paginations h ! a) = None \<or> Offset (paginations h ! a) = None \<longrightarrow>
          Cursor pg' = None \<or> Offset pg' = None))"
  proof (intro impI, elim conjE)
    assume a: "a < length (paginations h)"
      and vc: "valid_ptr (cursorPaginations h) (Cursor (paginations h ! a))"
      and vo: "valid_ptr (offsetPaginations h) (Offset (paginations h ! a))"
    define pg' where "pg' =
      \<lparr>Cursor = map_option (\<lambda>c. length (cursorPaginations h)) (Cursor (paginations h ! a)),
       Offset = map_option (\<lambda>c. length (offsetPaginations h)) (Offset (paginations h ! a))\<rparr>"
    from Clone_valid [OF a vc vo] obtain h' where
      cl: "Clone h (Some a) = Some (Some (length (paginations h)), h')"
      and ps: "paginations h' = paginations h @ [pg']"
      unfolding pg'_def by blast
    from ps have d: "deref (paginations h') (Some (length (paginations h))) = Some pg'"
      by (simp add: deref_def)
    have c: "Cursor pg' = None \<longleftrightarrow> Cursor (paginations h ! a) = None"
      by (simp add: pg'_def)
    have off: "Offset pg' = None \<longleftrightarrow> Offset (paginations h ! a) = None"
      by (simp add: pg'_def)
    from c off have both: "Cursor (paginations h ! a) = None \<or> Offset (paginations h ! a) = None \<longrightarrow>
        Cursor pg' = None \<or> Offset pg' = None"
      by simp
    show "\<exists>n h' pg'. Clone h (Some a) = Some (Some n, h') \<and>
       deref (paginations h') (Some n) = Some pg' \<and>
       (Cursor pg' = None \<longleftrightarrow> Cursor (paginations h ! a) = None) \<and>
       (Offset pg' = None \<longleftrightarrow> Offset (paginations h ! a) = None) \<and>
       (Cursor (paginations h ! a) = None \<or> Offset (paginations h ! a) = None \<longrightarrow>
          Cursor pg' = None \<or> Offset pg' = None)"
      by (intro exI conjI) (rule cl d c off both)+
  qed
  show ?thesis
    by (intro conjI w1 w2 w3 w4 w5)
qed

theorem Wrap_sets_one_descriptor_Clone_keeps_it_witness:
  "CursorPagination_Wrap empty_heap first_ten =
     (Some 0, \<lparr>paginations = [\<lparr>Cursor = Some 0, Offset = None\<rparr>],
               cursorPaginations = [first_ten], offsetPaginations = [],
               cursors = [], int64s = []\<rparr>) \<and>
   OffsetPagination_Wrap empty_heap skip_take =
     (Some 0, \<lparr>paginations = [\<lparr>Cursor = None, Offset = Some 0\<rparr>],
               cursorPaginations = [], offsetPaginations = [skip_take],
               cursors = [], int64s = []\<rparr>) \<and>
   map_option fst (Clone (snd (OffsetPagination_Wrap empty_heap skip_take)) (Some 0)) =
     Some (Some 1) \<and>
   deref (paginations (snd (the (Clone (snd (OffsetPagination_Wrap empty_heap skip_take))
       (Some 0))))) (Some 1) = Some \<lparr>Cursor = None, Offset = Some 1\<rparr>"
proof -
  let ?h = "snd (OffsetPagination_Wrap empty_heap skip_take)"
  have h: "?h = \<lparr>paginations = [\<lparr>Cursor = None, Offset = Some 0\<rparr>],
      cursorPaginations = [], offsetPaginations = [skip_take],
               cursors = [], int64s = []\<rparr>"
    by (simp add: OffsetPagination_Wrap_def empty_heap_def)
  have wc: "CursorPagination_Wrap empty_heap first_ten =
     (Some 0, \<lparr>paginations = [\<lparr>Cursor = Some 0, Offset = None\<rparr>],
               cursorPaginations = [first_ten], offsetPaginations = [],
               cursors = [], int64s = []\<rparr>)"
    by (simp add: CursorPagination_Wrap_def empty_heap_def)
  have wo: "OffsetPagination_Wrap empty_heap skip_take =
     (Some 0, \<lparr>paginations = [\<lparr>Cursor = None, Offset = Some 0\<rparr>],
               cursorPaginations = [], offsetPaginations = [skip_take],
               cursors = [], int64s = []\<rparr>)"
    by (simp add: OffsetPagination_Wrap_def empty_heap_def)
  have run: "Clone ?h (Some 0) =
      Some (Some 1, \<lparr>paginations = [\<lparr>Cursor = None, Offset = Some 0\<rparr>,
                                     \<lparr>Cursor = None, Offset = Some 1\<rparr>],
                      cursorPaginations = [], offsetPaginations = [skip_take, skip_take],
                      cursors = [], int64s = []\<rparr>)"
    unfolding h by (simp add: Clone_def CloneRef_def CloneRef_CursorPagination_def)
  have pre: "0 < length (paginations ?h) \<and>
      valid_ptr (cursorPaginations ?h) (Cursor (paginations ?h ! 0)) \<and>
      valid_ptr (offsetPaginations ?h) (Offset (paginations ?h ! 0))"
    unfolding h by (simp add: valid_ptr_def)
  have one: "Cursor (paginations ?h ! 0) = None \<or> Offset (paginations ?h ! 0) = None"
    unfolding h by simp
  from Wrap_sets_one_descriptor_Clone_keeps_it [of ?h first_ten skip_take 0] pre one
  obtain n h' pg' where cl: "Clone ?h (Some 0) = Some (Some n, h')"
    and d: "deref (paginations h') (Some n) = Some pg'"
    and nb: "Cursor pg' = None \<or> Offset pg' = None"
    by blast
  from cl [symmetric] run have eq: "Some (Some n, h') =
      Some (Some 1, \<lparr>paginations = [\<lparr>Cursor = None, Offset = Some 0\<rparr>,
                                     \<lparr>Cursor = None, Offset = Some 1\<rparr>],
                      cursorPaginations = [], offsetPaginations = [skip_take, skip_take],
                      cursors = [], int64s = []\<rparr>)"
    by (rule trans)
  from eq have n: "n = 1" by simp
  from cl have "map_option fst (Clone ?h (Some 0)) = Some (Some n)"
    by simp
  then have c3: "map_option fst (Clone ?h (Some 0)) = Some (Some 1)"
    unfolding n .
  have c4: "deref (paginations (snd (the (Clone ?h (Some 0))))) (Some 1) =
      Some \<lparr>Cursor = None, Offset = Some 1\<rparr>"
    by (simp add: run deref_def)
  show ?thesis
    by (intro conjI wc wo c3 c4)
qed

end
